theory Spec2Isabelle
  imports Complex_Main
begin

section \<open>Errors and the retry executor\<close>

text \<open>
  The provider classes \<open>AWSBedrockMistralProvider\<close>, \<open>AWSBedrockPixtralProvider\<close> and
  \<open>MaritacaProvider\<close> are the three TypeScript modules that follow the YAML text in
  \<open>src/models.example.yaml\<close> (lines 71-289, 289-698 and 698-767); line numbers below are
  those of that file.

  A thrown JavaScript error object, as far as the code inspects it: \<open>error.name\<close>,
  \<open>error.message\<close> and \<open>error.$metadata?.httpStatusCode\<close> (absent metadata is
  \<open>None\<close>). Strings are lists of code units; the code compares them only against ASCII
  characters.
\<close>

record jsError =
  name :: string
  message :: string
  httpStatusCode :: "nat option"

text \<open>\<open>new Error(msg)\<close>: the name is \<open>Error\<close> and there is no metadata.\<close>

definition Error :: "string \<Rightarrow> jsError" where
  "Error msg = \<lparr>name = ''Error'', message = msg, httpStatusCode = None\<rparr>"

text \<open>
  Reading \<open>lastError.message\<close> while \<open>lastError\<close> is still unassigned is a
  \<open>TypeError\<close> of the runtime.
\<close>

definition TypeError :: "string \<Rightarrow> jsError" where
  "TypeError msg = \<lparr>name = ''TypeError'', message = msg, httpStatusCode = None\<rparr>"

text \<open>The three module constants of a provider file (lines 80-82 and 298-300).\<close>

record retryConfig =
  MAX_RETRIES :: nat
  BASE_DELAY :: nat
  MAX_DELAY :: nat

text \<open>\<open>awsBedrockMistral.ts\<close>: 5, 1000, 30000.\<close>

definition mistralRetry :: retryConfig where
  "mistralRetry = \<lparr>MAX_RETRIES = 5, BASE_DELAY = 1000, MAX_DELAY = 30000\<rparr>"

text \<open>\<open>awsBedrockPixtral.ts\<close>: 5, 2000, 60000.\<close>

definition pixtralRetry :: retryConfig where
  "pixtralRetry = \<lparr>MAX_RETRIES = 5, BASE_DELAY = 2000, MAX_DELAY = 60000\<rparr>"

text \<open>
  The retry configuration printed in \<open>docs/AWS_BEDROCK_PIXTRAL_CONFIGURATION.md\<close>
  (section "Retry Configuration") for the Pixtral provider.
\<close>

definition pixtralRetry_documented :: retryConfig where
  "pixtralRetry_documented = \<lparr>MAX_RETRIES = 5, BASE_DELAY = 1000, MAX_DELAY = 30000\<rparr>"

text \<open>
  What a run of \<open>executeWithRetry\<close> does besides returning: how often it invoked the
  operation and which delays it slept, in order.
\<close>

record retryLog =
  calls :: nat
  sleeps :: "nat list"

definition emptyLog :: retryLog where
  "emptyLog = \<lparr>calls = 0, sleeps = []\<rparr>"

text \<open>The test of the \<open>catch\<close> block: a throttling error.\<close>

definition isThrottling :: "jsError \<Rightarrow> bool" where
  "isThrottling error \<longleftrightarrow>
     name error = ''ThrottlingException'' \<or> httpStatusCode error = Some 429"

text \<open>\<open>Math.min(BASE_DELAY * Math.pow(2, attempt - 1), MAX_DELAY)\<close>, for \<open>attempt > 0\<close>.\<close>

definition backoffDelay :: "retryConfig \<Rightarrow> nat \<Rightarrow> nat" where
  "backoffDelay cfg attempt = min (BASE_DELAY cfg * 2 ^ (attempt - 1)) (MAX_DELAY cfg)"

text \<open>Decimal rendering of a number inside a template literal.\<close>

definition digit :: "nat \<Rightarrow> char" where
  "digit d = ''0123456789'' ! d"

function toString :: "nat \<Rightarrow> string" where
  "toString n = (if n < 10 then [digit n] else toString (n div 10) @ [digit (n mod 10)])"
  by pat_completeness auto
termination
  by (relation "measure id") auto

declare toString.simps [simp del]

text \<open>
  The \<open>for\<close> loop of \<open>executeWithRetry\<close> (lines 116-146 and, the same text, lines
  338-368), from \<open>attempt\<close> on, with \<open>lastError\<close> unassigned or assigned. The operation is a
  closure over the network; \<open>operation n\<close> is what its invocation number \<open>n\<close>
  (counted from 0) does in this run: \<open>Inr\<close> its value or \<open>Inl\<close> the error it throws.
  Both the \<open>continue\<close> and the fall-through of the throttling branch reach
  \<open>attempt++\<close>; the statement after the loop is the last branch.
\<close>

function retryLoop ::
  "retryConfig \<Rightarrow> (nat \<Rightarrow> jsError + 'a) \<Rightarrow> string \<Rightarrow> nat \<Rightarrow> jsError option \<Rightarrow> retryLog
     \<Rightarrow> (jsError + 'a) \<times> retryLog" where
  "retryLoop cfg operation operationName attempt lastError lg =
     (if attempt \<le> MAX_RETRIES cfg then
        (let slept = (if attempt > 0
                      then lg\<lparr>sleeps := sleeps lg @ [backoffDelay cfg attempt]\<rparr>
                      else lg);
             called = slept\<lparr>calls := calls slept + 1\<rparr>
         in case operation (calls slept) of
              Inr v \<Rightarrow> (Inr v, called)
            | Inl error \<Rightarrow>
                if isThrottling error then
                  (if attempt < MAX_RETRIES cfg
                   then retryLoop cfg operation operationName (attempt + 1) (Some error) called
                   else retryLoop cfg operation operationName (attempt + 1) (Some error) called)
                else (Inl error, called))
      else
        (case lastError of
           None \<Rightarrow> (Inl (TypeError ''Cannot read properties of undefined (reading 'message')''), lg)
         | Some e \<Rightarrow>
             (Inl (Error (operationName @ '' failed after '' @ toString (MAX_RETRIES cfg + 1)
                          @ '' attempts. Last error: '' @ message e)), lg)))"
  by pat_completeness auto
termination
  by (relation "measure (\<lambda>(cfg, operation, operationName, attempt, lastError, lg).
                  MAX_RETRIES cfg + 1 - attempt)") auto

declare retryLoop.simps [simp del]

definition executeWithRetry ::
  "retryConfig \<Rightarrow> (nat \<Rightarrow> jsError + 'a) \<Rightarrow> string \<Rightarrow> (jsError + 'a) \<times> retryLog" where
  "executeWithRetry cfg operation operationName =
     retryLoop cfg operation operationName 0 None emptyLog"


section \<open>Numbers\<close>

text \<open>
  A JavaScript number is an IEEE 754 binary64 value: a finite value, an infinity or NaN.
  The two zeros are not told apart; nothing here divides by a zero.
\<close>

datatype jsNumber = Finite rat | PosInf | NegInf | NaN

text \<open>The number of binary digits of a positive integer.\<close>

function bitLength :: "int \<Rightarrow> nat" where
  "bitLength n = (if n \<le> 0 then 0 else Suc (bitLength (n div 2)))"
  by pat_completeness auto
termination
  by (relation "measure nat") auto

declare bitLength.simps [simp del]

definition pow2 :: "int \<Rightarrow> rat" where
  "pow2 e = (if 0 \<le> e then 2 ^ nat e else 1 / 2 ^ nat (- e))"

text \<open>For \<open>a > 0\<close>, the exponent \<open>e\<close> with \<open>2 ^ e \<le> a < 2 ^ (e + 1)\<close>.\<close>

definition binaryExponent :: "rat \<Rightarrow> int" where
  "binaryExponent a =
     (if 1 \<le> a then int (bitLength \<lfloor>a\<rfloor>) - 1
      else (let m = int (bitLength \<lfloor>1 / a\<rfloor>) - 1
            in if pow2 (- m) \<le> a then - m else - m - 1))"

text \<open>The nearest integer, the even one of two equally near.\<close>

definition roundHalfEven :: "rat \<Rightarrow> int" where
  "roundHalfEven y =
     (let f = \<lfloor>y\<rfloor>; d = y - of_int f
      in if d < 1 / 2 then f else if 1 / 2 < d then f + 1 else if even f then f else f + 1)"

definition roundToQuantum :: "rat \<Rightarrow> rat \<Rightarrow> rat" where
  "roundToQuantum a quantum = of_int (roundHalfEven (a / quantum)) * quantum"

definition orOverflow :: "bool \<Rightarrow> rat \<Rightarrow> jsNumber" where
  "orOverflow positive r =
     (if pow2 1024 \<le> r then (if positive then PosInf else NegInf)
      else Finite (if positive then r else - r))"

text \<open>
  The binary64 value of an exact result: rounded to the nearest multiple of the quantum
  of its binade (53 significant bits; exponents below \<open>-1022\<close> share one quantum), ties to
  even, and an infinity from \<open>2 ^ 1024\<close> on. Every arithmetic operation of the language
  returns the exact result rounded so, and a decimal literal denotes its value rounded so.
\<close>

definition round64 :: "rat \<Rightarrow> jsNumber" where
  "round64 x =
     (if x = 0 then Finite 0
      else orOverflow (0 < x)
             (roundToQuantum \<bar>x\<bar> (pow2 (max (binaryExponent \<bar>x\<bar>) (- 1022) - 52))))"

definition signOf :: "jsNumber \<Rightarrow> int" where
  "signOf x =
     (case x of
        Finite a \<Rightarrow> (if 0 < a then 1 else if a < 0 then - 1 else 0)
      | PosInf \<Rightarrow> 1
      | NegInf \<Rightarrow> - 1
      | NaN \<Rightarrow> 0)"

definition infinity :: "int \<Rightarrow> jsNumber" where
  "infinity s = (if 0 < s then PosInf else NegInf)"

fun jsAdd :: "jsNumber \<Rightarrow> jsNumber \<Rightarrow> jsNumber" where
  "jsAdd (Finite a) (Finite b) = round64 (a + b)"
| "jsAdd NaN y = NaN"
| "jsAdd x NaN = NaN"
| "jsAdd PosInf NegInf = NaN"
| "jsAdd NegInf PosInf = NaN"
| "jsAdd PosInf y = PosInf"
| "jsAdd NegInf y = NegInf"
| "jsAdd x PosInf = PosInf"
| "jsAdd x NegInf = NegInf"

fun jsNegate :: "jsNumber \<Rightarrow> jsNumber" where
  "jsNegate (Finite a) = Finite (- a)"
| "jsNegate PosInf = NegInf"
| "jsNegate NegInf = PosInf"
| "jsNegate NaN = NaN"

definition jsSub :: "jsNumber \<Rightarrow> jsNumber \<Rightarrow> jsNumber" where
  "jsSub x y = jsAdd x (jsNegate y)"

fun jsMul :: "jsNumber \<Rightarrow> jsNumber \<Rightarrow> jsNumber" where
  "jsMul (Finite a) (Finite b) = round64 (a * b)"
| "jsMul NaN y = NaN"
| "jsMul x NaN = NaN"
| "jsMul x y = (if signOf x * signOf y = 0 then NaN else infinity (signOf x * signOf y))"

fun jsDiv :: "jsNumber \<Rightarrow> jsNumber \<Rightarrow> jsNumber" where
  "jsDiv (Finite a) (Finite b) =
     (if b = 0 then (if a = 0 then NaN else infinity (signOf (Finite a)))
      else round64 (a / b))"
| "jsDiv NaN y = NaN"
| "jsDiv x NaN = NaN"
| "jsDiv (Finite a) y = Finite 0"
| "jsDiv x (Finite b) = infinity (signOf x * (if b < 0 then - 1 else 1))"
| "jsDiv x y = NaN"


section \<open>Token cost and usage\<close>

text \<open>
  \<open>src/models/shared/tokenCost.ts\<close>. The table holds the decimal literals as written; the
  number a literal denotes is its \<open>round64\<close>. A token count is a non-negative integer
  that a number holds exactly.
\<close>

record modelInfo =
  inputRate :: rat
  outputRate :: rat

datatype costType = Input | Output

definition TOKEN_COST :: "(string \<times> modelInfo) list" where
  "TOKEN_COST =
    [(''azure-gpt-4o'', \<lparr>inputRate = 2.5, outputRate = 10\<rparr>),
     (''azure-gpt-4o-mini'', \<lparr>inputRate = 0.15, outputRate = 0.6\<rparr>),
     (''azure-gpt-4.1'', \<lparr>inputRate = 2, outputRate = 8\<rparr>),
     (''azure-gpt-4.1-mini'', \<lparr>inputRate = 0.4, outputRate = 1.6\<rparr>),
     (''azure-gpt-4.1-nano'', \<lparr>inputRate = 0.1, outputRate = 0.4\<rparr>),
     (''azure-o1'', \<lparr>inputRate = 15, outputRate = 60\<rparr>),
     (''azure-o1-mini'', \<lparr>inputRate = 1.1, outputRate = 4.4\<rparr>),
     (''azure-o3-mini'', \<lparr>inputRate = 1.1, outputRate = 4.4\<rparr>),
     (''claude-3-5-sonnet-20241022'', \<lparr>inputRate = 3, outputRate = 15\<rparr>),
     (''claude-3-7-sonnet-20250219'', \<lparr>inputRate = 3, outputRate = 15\<rparr>),
     (''claude-sonnet-4-20250514'', \<lparr>inputRate = 3, outputRate = 15\<rparr>),
     (''deepseek-chat'', \<lparr>inputRate = 0.14, outputRate = 0.28\<rparr>),
     (''gemini-1.5-pro'', \<lparr>inputRate = 1.25, outputRate = 5\<rparr>),
     (''gemini-1.5-flash'', \<lparr>inputRate = 0.075, outputRate = 0.3\<rparr>),
     (''gemini-2.0-flash-001'', \<lparr>inputRate = 0.1, outputRate = 0.4\<rparr>),
     (''gemini-2.5-pro-exp-03-25'', \<lparr>inputRate = 1.25, outputRate = 10\<rparr>),
     (''gemini-2.5-pro-preview-03-25'', \<lparr>inputRate = 1.25, outputRate = 10\<rparr>),
     (''gemini-2.5-pro-preview-05-06'', \<lparr>inputRate = 1.25, outputRate = 10\<rparr>),
     (''gemini-2.5-flash-preview-04-17'', \<lparr>inputRate = 0.15, outputRate = 0.6\<rparr>),
     (''gpt-4o'', \<lparr>inputRate = 2.5, outputRate = 10\<rparr>),
     (''gpt-4o-2024-11-20'', \<lparr>inputRate = 2.5, outputRate = 10\<rparr>),
     (''gpt-4o-mini'', \<lparr>inputRate = 0.15, outputRate = 0.6\<rparr>),
     (''gpt-4.1'', \<lparr>inputRate = 2, outputRate = 8\<rparr>),
     (''gpt-4.1-mini'', \<lparr>inputRate = 0.4, outputRate = 1.6\<rparr>),
     (''gpt-4.1-nano'', \<lparr>inputRate = 0.1, outputRate = 0.4\<rparr>),
     (''o1'', \<lparr>inputRate = 15, outputRate = 60\<rparr>),
     (''o1-mini'', \<lparr>inputRate = 1.1, outputRate = 4.4\<rparr>),
     (''o3-mini'', \<lparr>inputRate = 1.1, outputRate = 4.4\<rparr>),
     (''o4-mini'', \<lparr>inputRate = 1.1, outputRate = 4.4\<rparr>),
     (''chatgpt-4o-latest'', \<lparr>inputRate = 2.5, outputRate = 10\<rparr>),
     (''zerox'', \<lparr>inputRate = 2.5, outputRate = 10\<rparr>),
     (''qwen2.5-vl-32b-instruct'', \<lparr>inputRate = 0, outputRate = 0\<rparr>),
     (''qwen2.5-vl-72b-instruct'', \<lparr>inputRate = 0, outputRate = 0\<rparr>),
     (''google/gemma-3-27b-it'', \<lparr>inputRate = 0.1, outputRate = 0.2\<rparr>),
     (''deepseek/deepseek-chat-v3-0324'', \<lparr>inputRate = 0.27, outputRate = 1.1\<rparr>),
     (''meta-llama/llama-3.2-11b-vision-instruct'', \<lparr>inputRate = 0.055, outputRate = 0.055\<rparr>),
     (''meta-llama/llama-3.2-90b-vision-instruct'', \<lparr>inputRate = 0.8, outputRate = 1.6\<rparr>),
     (''meta-llama/Llama-3.2-11B-Vision-Instruct-Turbo'', \<lparr>inputRate = 0.18, outputRate = 0.18\<rparr>),
     (''meta-llama/Llama-3.2-90B-Vision-Instruct-Turbo'', \<lparr>inputRate = 1.2, outputRate = 1.2\<rparr>),
     (''meta-llama/Llama-4-Scout-17B-16E-Instruct'', \<lparr>inputRate = 0.18, outputRate = 0.59\<rparr>),
     (''meta-llama/Llama-4-Maverick-17B-128E-Instruct-FP8'', \<lparr>inputRate = 0.27, outputRate = 0.85\<rparr>),
     (''sabia-3'', \<lparr>inputRate = 0.89, outputRate = 1.77\<rparr>),
     (''sabia-3.1'', \<lparr>inputRate = 0.89, outputRate = 1.77\<rparr>),
     (''sabiazinho-3'', \<lparr>inputRate = 0.18, outputRate = 0.53\<rparr>),
     (''aaditya/OpenBioLLM-Llama3-70B'', \<lparr>inputRate = 0.18, outputRate = 0.18\<rparr>),
     (''aaditya/OpenBioLLM-Llama3-70B-Instruct'', \<lparr>inputRate = 0.18, outputRate = 0.18\<rparr>),
     (''us.meta.llama4-maverick-17b-instruct-v1:0'', \<lparr>inputRate = 0.1, outputRate = 0.2\<rparr>),
     (''mistral.mixtral-8x7b-instruct-v0:1'', \<lparr>inputRate = 0.7, outputRate = 2.4\<rparr>),
     (''pixtral-12b-v1'', \<lparr>inputRate = 0.1, outputRate = 0.2\<rparr>),
     (''pixtral-12b-instruct-v1'', \<lparr>inputRate = 0.1, outputRate = 0.2\<rparr>)]"

definition FINETUNED_MODELS :: "string list" where
  "FINETUNED_MODELS = []"

definition quote :: char where
  "quote = CHR 0x27"

definition notSupported :: "string \<Rightarrow> jsError" where
  "notSupported model = Error (''Model '' @ [quote] @ model @ [quote] @ '' is not supported.'')"

text \<open>
  \<open>combinedCost\<close> is an object literal, so besides its own keys it answers to the names it
  inherits from \<open>Object.prototype\<close>: eleven functions and, under \<open>__proto__\<close>, the
  prototype itself.
\<close>

definition objectPrototypeKeys :: "string list" where
  "objectPrototypeKeys =
    [''constructor'', ''__defineGetter__'', ''__defineSetter__'', ''hasOwnProperty'',
     ''__lookupGetter__'', ''__lookupSetter__'', ''isPrototypeOf'', ''propertyIsEnumerable'',
     ''toString'', ''valueOf'', ''__proto__'', ''toLocaleString'']"

text \<open>
  \<open>calculateTokenCost\<close> (lines 208-220). For a key of the table, \<open>modelInfo[type]\<close> is the
  rate. For an inherited name, \<open>modelInfo\<close> is a function or the prototype, which is truthy,
  so nothing is thrown; \<open>modelInfo[type]\<close> is \<open>undefined\<close>, and \<open>undefined * tokens\<close> is NaN.
  For any other string \<open>modelInfo\<close> is \<open>undefined\<close> and the error is thrown.
\<close>

definition calculateTokenCost :: "string \<Rightarrow> costType \<Rightarrow> nat \<Rightarrow> jsError + jsNumber" where
  "calculateTokenCost model type tokens =
     (let fineTuneCost = map (\<lambda>el. (el, \<lparr>inputRate = 3.75, outputRate = 15.0\<rparr>)) FINETUNED_MODELS;
          combinedCost = map_of TOKEN_COST ++ map_of fineTuneCost
      in case combinedCost model of
           Some info \<Rightarrow>
             Inr (jsDiv (jsMul (round64 (case type of Input \<Rightarrow> inputRate info
                                                    | Output \<Rightarrow> outputRate info))
                               (Finite (of_nat tokens)))
                        (Finite 1000000))
         | None \<Rightarrow>
             if model \<in> set objectPrototypeKeys
             then Inr (jsDiv (jsMul NaN (Finite (of_nat tokens))) (Finite 1000000))
             else Inl (notSupported model))"

record Usage =
  duration :: jsNumber
  inputTokens :: nat
  outputTokens :: nat
  totalTokens :: nat
  inputCost :: jsNumber
  outputCost :: jsNumber
  totalCost :: jsNumber

text \<open>
  The tail that every provider method here repeats (lines 260-278, 418-436, 541-559,
  677-695 and 749-765): the two token counts (after \<open>|| 0\<close>), the two calls of
  \<open>calculateTokenCost\<close>, which may throw, and the \<open>usage\<close> object literal. \<open>start\<close> and
  \<open>fin\<close> are the two readings of \<open>performance.now()\<close>.
\<close>

definition buildUsage ::
  "string \<Rightarrow> jsNumber \<Rightarrow> jsNumber \<Rightarrow> nat option \<Rightarrow> nat option \<Rightarrow> jsError + Usage" where
  "buildUsage model start fin reportedInput reportedOutput =
     (let estimatedInputTokens = (case reportedInput of None \<Rightarrow> 0 | Some n \<Rightarrow> n);
          estimatedOutputTokens = (case reportedOutput of None \<Rightarrow> 0 | Some n \<Rightarrow> n)
      in case calculateTokenCost model Input estimatedInputTokens of
           Inl e \<Rightarrow> Inl e
         | Inr inCost \<Rightarrow>
            (case calculateTokenCost model Output estimatedOutputTokens of
               Inl e \<Rightarrow> Inl e
             | Inr outCost \<Rightarrow>
                 Inr \<lparr>duration = jsSub fin start,
                      inputTokens = estimatedInputTokens,
                      outputTokens = estimatedOutputTokens,
                      totalTokens = estimatedInputTokens + estimatedOutputTokens,
                      inputCost = inCost,
                      outputCost = outCost,
                      totalCost = jsAdd inCost outCost\<rparr>))"

section \<open>Recovering JSON from a response text\<close>

text \<open>
  \<open>indexOf\<close> and \<open>lastIndexOf\<close> with a one-character search string: the index of the
  first (last) occurrence, \<open>-1\<close> when there is none.
\<close>

fun indexOf :: "string \<Rightarrow> char \<Rightarrow> int" where
  "indexOf [] c = -1"
| "indexOf (x # xs) c =
     (if x = c then 0 else (let r = indexOf xs c in if r = -1 then -1 else r + 1))"

fun lastIndexOf :: "string \<Rightarrow> char \<Rightarrow> int" where
  "lastIndexOf [] c = -1"
| "lastIndexOf (x # xs) c =
     (let r = lastIndexOf xs c in if r \<noteq> -1 then r + 1 else if x = c then 0 else -1)"

text \<open>\<open>substring(start, end)\<close>: both indices clamped to the string, swapped when out of order.\<close>

definition substring :: "string \<Rightarrow> int \<Rightarrow> int \<Rightarrow> string" where
  "substring s start fin =
     (let len = int (length s);
          a = max 0 (min start len);
          b = max 0 (min fin len);
          lo = min a b;
          hi = max a b
      in take (nat (hi - lo)) (drop (nat lo) s))"

subsection \<open>The Mistral provider\<close>

text \<open>
  Lines 204-258. Strategy 1: from the first opening brace to the last closing brace.
\<close>

definition mistral_strategy1 :: "string \<Rightarrow> string" where
  "mistral_strategy1 responseText =
     (let firstBrace = indexOf responseText CHR ''{'';
          lastBrace = lastIndexOf responseText CHR ''}''
      in if firstBrace \<noteq> -1 \<and> lastBrace \<noteq> -1 \<and> lastBrace > firstBrace
         then substring responseText firstBrace (lastBrace + 1)
         else [])"

text \<open>
  The loop of strategy 2 over the characters from index \<open>i\<close> on, with the current
  \<open>braceCount\<close> and \<open>startIndex\<close>; it returns \<open>(startIndex, endIndex)\<close>, and
  \<open>endIndex\<close> stays \<open>-1\<close> unless the \<open>break\<close> is reached.
\<close>

fun mistral_scan :: "string \<Rightarrow> nat \<Rightarrow> int \<Rightarrow> int \<Rightarrow> int \<times> int" where
  "mistral_scan [] i braceCount startIndex = (startIndex, -1)"
| "mistral_scan (c # cs) i braceCount startIndex =
     (if c = CHR ''{'' then
        mistral_scan cs (i + 1) (braceCount + 1) (if braceCount = 0 then int i else startIndex)
      else if c = CHR ''}'' then
        (if braceCount - 1 = 0 \<and> startIndex \<noteq> -1 then (startIndex, int i)
         else mistral_scan cs (i + 1) (braceCount - 1) startIndex)
      else mistral_scan cs (i + 1) braceCount startIndex)"

definition mistral_strategy2 :: "string \<Rightarrow> string" where
  "mistral_strategy2 responseText =
     (case mistral_scan responseText 0 0 (-1) of
        (startIndex, endIndex) \<Rightarrow>
          if startIndex \<noteq> -1 \<and> endIndex \<noteq> -1
          then substring responseText startIndex (endIndex + 1)
          else [])"

text \<open>
  \<open>responseText.match(/\{[\s\S]*\}/)\<close>: the leftmost opening brace that has a closing brace
  after it, and, the star being greedy, everything up to the last closing brace.
\<close>

fun matchBraceToLastBrace :: "string \<Rightarrow> string option" where
  "matchBraceToLastBrace [] = None"
| "matchBraceToLastBrace (c # cs) =
     (if c = CHR ''{'' \<and> lastIndexOf cs CHR ''}'' \<noteq> -1
      then Some (c # take (nat (lastIndexOf cs CHR ''}'') + 1) cs)
      else matchBraceToLastBrace cs)"

definition mistral_strategy3 :: "string \<Rightarrow> string" where
  "mistral_strategy3 responseText =
     (case matchBraceToLastBrace responseText of Some m \<Rightarrow> m | None \<Rightarrow> [])"

text \<open>
  The value of \<open>jsonString\<close> after the three blocks: each later block runs only while
  \<open>jsonString\<close> is still empty (\<open>!jsonString\<close>).
\<close>

definition mistral_jsonString :: "string \<Rightarrow> string" where
  "mistral_jsonString responseText =
     (let jsonString = mistral_strategy1 responseText;
          jsonString = (if jsonString = [] then mistral_strategy2 responseText else jsonString);
          jsonString = (if jsonString = [] then mistral_strategy3 responseText else jsonString)
      in jsonString)"

subsection \<open>The Pixtral provider\<close>

text \<open>
  Lines 484-539 in \<open>extractFromText\<close> and, the same text, lines 620-675 in
  \<open>extractFromImage\<close>. The loop of strategy 1, started at the first opening brace: it returns
  \<open>(braceCount, endIndex)\<close>.
\<close>

fun pixtral_scan :: "string \<Rightarrow> nat \<Rightarrow> int \<Rightarrow> int \<Rightarrow> int \<times> int" where
  "pixtral_scan [] i braceCount endIndex = (braceCount, endIndex)"
| "pixtral_scan (c # cs) i braceCount endIndex =
     (if c = CHR ''{'' then pixtral_scan cs (i + 1) (braceCount + 1) endIndex
      else if c = CHR ''}'' then
        (if braceCount - 1 = 0 then (braceCount - 1, int i)
         else pixtral_scan cs (i + 1) (braceCount - 1) endIndex)
      else pixtral_scan cs (i + 1) braceCount endIndex)"

definition pixtral_strategy1 :: "string \<Rightarrow> string" where
  "pixtral_strategy1 responseText =
     (let firstBrace = indexOf responseText CHR ''{''
      in if firstBrace \<noteq> -1 then
           (case pixtral_scan (drop (nat firstBrace) responseText) (nat firstBrace) 0 firstBrace of
              (braceCount, endIndex) \<Rightarrow>
                if braceCount = 0 then substring responseText firstBrace (endIndex + 1) else [])
         else [])"

text \<open>
  \<open>responseText.match(/\{[^}]*\}/)\<close>: the leftmost opening brace that has a closing brace
  after it, up to the first closing brace after it.
\<close>

fun matchBraceToNextBrace :: "string \<Rightarrow> string option" where
  "matchBraceToNextBrace [] = None"
| "matchBraceToNextBrace (c # cs) =
     (if c = CHR ''{'' \<and> indexOf cs CHR ''}'' \<noteq> -1
      then Some (c # take (nat (indexOf cs CHR ''}'') + 1) cs)
      else matchBraceToNextBrace cs)"

definition pixtral_strategy2 :: "string \<Rightarrow> string" where
  "pixtral_strategy2 responseText =
     (case matchBraceToNextBrace responseText of Some m \<Rightarrow> m | None \<Rightarrow> [])"

text \<open>\<open>split('\n')\<close>: the pieces between line feeds; a text without one is a single piece.\<close>

fun splitLines :: "string \<Rightarrow> string list" where
  "splitLines [] = [[]]"
| "splitLines (c # cs) =
     (if c = CHR 0x0A then [] # splitLines cs
      else (case splitLines cs of l # ls \<Rightarrow> (c # l) # ls | [] \<Rightarrow> [[c]]))"

text \<open>
  \<open>trim()\<close> strips white space and line terminators from both ends; among the code units
  below 256 these are tab, line feed, vertical tab, form feed, carriage return, space and
  the no-break space.
\<close>

definition isWhiteSpace :: "char \<Rightarrow> bool" where
  "isWhiteSpace c \<longleftrightarrow> (of_char c :: nat) \<in> {9, 10, 11, 12, 13, 32, 160}"

definition trim :: "string \<Rightarrow> string" where
  "trim s = rev (dropWhile isWhiteSpace (rev (dropWhile isWhiteSpace s)))"

fun pixtral_lineScan :: "string list \<Rightarrow> string" where
  "pixtral_lineScan [] = []"
| "pixtral_lineScan (line # lines) =
     (let trimmed = trim line
      in if take 1 trimmed = ''{'' \<and> CHR ''}'' \<in> set trimmed then trimmed
         else pixtral_lineScan lines)"

definition pixtral_strategy3 :: "string \<Rightarrow> string" where
  "pixtral_strategy3 responseText = pixtral_lineScan (splitLines responseText)"

definition pixtral_jsonString :: "string \<Rightarrow> string" where
  "pixtral_jsonString responseText =
     (let jsonString = pixtral_strategy1 responseText;
          jsonString = (if jsonString = [] then pixtral_strategy2 responseText else jsonString);
          jsonString = (if jsonString = [] then pixtral_strategy3 responseText else jsonString)
      in jsonString)"

subsection \<open>From the candidate to the value\<close>

text \<open>
  The \<open>try\<close> block around the recovery: with no candidate it throws
  \<open>No valid JSON object found in response\<close>, otherwise it calls \<open>JSON.parse\<close>; the
  \<open>catch\<close> wraps either error into \<open>Invalid JSON response: ...\<close>. \<open>JSON.parse\<close> belongs
  to the runtime: it is the parameter \<open>parse\<close>, \<open>Inl\<close> the message of its
  \<open>SyntaxError\<close>.
\<close>

definition parseCandidate :: "(string \<Rightarrow> string + 'j) \<Rightarrow> string \<Rightarrow> jsError + 'j" where
  "parseCandidate parse jsonString =
     (case (if jsonString = [] then Inl ''No valid JSON object found in response''
            else parse jsonString) of
        Inl parseErrorMessage \<Rightarrow> Inl (Error (''Invalid JSON response: '' @ parseErrorMessage))
      | Inr json \<Rightarrow> Inr json)"

definition mistral_parseResponse :: "(string \<Rightarrow> string + 'j) \<Rightarrow> string \<Rightarrow> jsError + 'j" where
  "mistral_parseResponse parse responseText =
     parseCandidate parse (mistral_jsonString responseText)"

definition pixtral_parseResponse :: "(string \<Rightarrow> string + 'j) \<Rightarrow> string \<Rightarrow> jsError + 'j" where
  "pixtral_parseResponse parse responseText =
     parseCandidate parse (pixtral_jsonString responseText)"


section \<open>A reading of \<open>JSON.parse\<close>\<close>

text \<open>
  The grammar of JSON texts (ECMA-404), which \<open>JSON.parse\<close> accepts and nothing else. The
  value keeps the lexemes of numbers and strings as written. The wording of the runtime's
  \<open>SyntaxError\<close> differs between engines; one fixed message stands for it.
\<close>

datatype json =
    JNull
  | JBool bool
  | JNumber string
  | JString string
  | JArray "json list"
  | JObject "(string \<times> json) list"

definition isJsonSpace :: "char \<Rightarrow> bool" where
  "isJsonSpace c \<longleftrightarrow> (of_char c :: nat) \<in> {32, 9, 10, 13}"

definition skipSpace :: "string \<Rightarrow> string" where
  "skipSpace cs = dropWhile isJsonSpace cs"

definition isDigit :: "char \<Rightarrow> bool" where
  "isDigit c \<longleftrightarrow> 48 \<le> (of_char c :: nat) \<and> (of_char c :: nat) \<le> 57"

definition isHexDigit :: "char \<Rightarrow> bool" where
  "isHexDigit c \<longleftrightarrow> isDigit c \<or> c \<in> set ''abcdefABCDEF''"

text \<open>
  The characters of a string after its opening quotation mark, up to the closing one:
  no control characters, and a reverse solidus only in front of one of
  \<open>" \ / b f n r t\<close> or of \<open>u\<close> and four hexadecimal digits.
\<close>

fun lexString :: "string \<Rightarrow> string \<Rightarrow> (string \<times> string) option" where
  "lexString acc [] = None"
| "lexString acc (c # cs) =
     (if c = CHR 0x22 then Some (rev acc, cs)
      else if c = CHR 0x5C then
        (case cs of
           [] \<Rightarrow> None
         | e # cs1 \<Rightarrow>
             if e \<in> set [CHR 0x22, CHR 0x5C, CHR ''/'', CHR ''b'', CHR ''f'', CHR ''n'',
                          CHR ''r'', CHR ''t'']
             then lexString (e # c # acc) cs1
             else if e = CHR ''u'' \<and> length cs1 \<ge> 4 \<and> list_all isHexDigit (take 4 cs1)
             then lexString (rev (take 4 cs1) @ e # c # acc) (drop 4 cs1)
             else None)
      else if (of_char c :: nat) < 32 then None
      else lexString (c # acc) cs)"

definition lexNumber :: "string \<Rightarrow> (string \<times> string) option" where
  "lexNumber cs =
     (let sign = (if take 1 cs = ''-'' then ''-'' else []);
          r0 = drop (length sign) cs;
          whole = takeWhile isDigit r0;
          r1 = dropWhile isDigit r0;
          frac = (if take 1 r1 = ''.'' then CHR ''.'' # takeWhile isDigit (drop 1 r1) else []);
          r2 = drop (length frac) r1;
          mark = (if take 1 r2 = ''e'' \<or> take 1 r2 = ''E'' then take 1 r2 else []);
          r3 = drop (length mark) r2;
          esign = (if mark \<noteq> [] \<and> (take 1 r3 = ''+'' \<or> take 1 r3 = ''-'') then take 1 r3 else []);
          r4 = drop (length esign) r3;
          edigits = (if mark \<noteq> [] then takeWhile isDigit r4 else []);
          r5 = drop (length edigits) r4
      in if whole = [] \<or> (length whole > 1 \<and> take 1 whole = ''0'') then None
         else if length frac = 1 then None
         else if mark \<noteq> [] \<and> edigits = [] then None
         else Some (sign @ whole @ frac @ mark @ esign @ edigits, r5))"

text \<open>
  A value, the elements of an array after its opening bracket and the members of an object
  after its opening brace. Each returns what it read and the rest of the text, white space
  after a value skipped. The first argument bounds the number of nested calls.
\<close>

fun parseValue :: "nat \<Rightarrow> string \<Rightarrow> (json \<times> string) option"
  and parseElements :: "nat \<Rightarrow> json list \<Rightarrow> string \<Rightarrow> (json \<times> string) option"
  and parseMembers :: "nat \<Rightarrow> (string \<times> json) list \<Rightarrow> string \<Rightarrow> (json \<times> string) option"
where
  "parseValue 0 cs = None"
| "parseValue (Suc n) cs =
     (case skipSpace cs of
        [] \<Rightarrow> None
      | c # r \<Rightarrow>
          if c = CHR ''{'' then
            (if take 1 (skipSpace r) = ''}'' then Some (JObject [], skipSpace (drop 1 (skipSpace r)))
             else parseMembers n [] r)
          else if c = CHR ''['' then
            (if take 1 (skipSpace r) = '']'' then Some (JArray [], skipSpace (drop 1 (skipSpace r)))
             else parseElements n [] r)
          else if c = CHR 0x22 then
            (case lexString [] r of
               None \<Rightarrow> None
             | Some (s, r1) \<Rightarrow> Some (JString s, skipSpace r1))
          else if take 4 (c # r) = ''true'' then Some (JBool True, skipSpace (drop 4 (c # r)))
          else if take 5 (c # r) = ''false'' then Some (JBool False, skipSpace (drop 5 (c # r)))
          else if take 4 (c # r) = ''null'' then Some (JNull, skipSpace (drop 4 (c # r)))
          else
            (case lexNumber (c # r) of
               None \<Rightarrow> None
             | Some (lexeme, r1) \<Rightarrow> Some (JNumber lexeme, skipSpace r1)))"
| "parseElements 0 acc cs = None"
| "parseElements (Suc n) acc cs =
     (case parseValue n cs of
        None \<Rightarrow> None
      | Some (v, r) \<Rightarrow>
          if take 1 r = '','' then parseElements n (v # acc) (drop 1 r)
          else if take 1 r = '']'' then Some (JArray (rev (v # acc)), skipSpace (drop 1 r))
          else None)"
| "parseMembers 0 acc cs = None"
| "parseMembers (Suc n) acc cs =
     (if take 1 (skipSpace cs) = [CHR 0x22] then
        (case lexString [] (drop 1 (skipSpace cs)) of
           None \<Rightarrow> None
         | Some (k, r1) \<Rightarrow>
             if take 1 (skipSpace r1) = '':'' then
               (case parseValue n (drop 1 (skipSpace r1)) of
                  None \<Rightarrow> None
                | Some (v, r2) \<Rightarrow>
                    if take 1 r2 = '','' then parseMembers n ((k, v) # acc) (drop 1 r2)
                    else if take 1 r2 = ''}'' then
                      Some (JObject (rev ((k, v) # acc)), skipSpace (drop 1 r2))
                    else None)
             else None)
      else None)"

definition JSON_parse :: "string \<Rightarrow> string + json" where
  "JSON_parse s =
     (case parseValue (2 * length s + 2) s of
        Some (v, []) \<Rightarrow> Inr v
      | _ \<Rightarrow> Inl ''Unexpected token in JSON'')"

section \<open>Provider methods\<close>

text \<open>
  One exchange with the service inside a provider method: the clock before the request,
  what the request gave (the error it threw, or the fields of the response the code
  reads), and the clock after it. A reading of \<open>performance.now()\<close> is a finite number;
  the exchange holds its value.
\<close>

record 'r exchange =
  started :: rat
  sent :: "jsError + 'r"
  ended :: rat

text \<open>
  Of a Bedrock \<open>Converse\<close> response: \<open>output?.message?.content?.[0]?.text\<close>,
  \<open>usage?.inputTokens\<close> and \<open>usage?.outputTokens\<close>, each possibly absent. The service
  counts tokens in non-negative integers that a number holds exactly.
\<close>

record bedrockResponse =
  contentText :: "string option"
  usageInputTokens :: "nat option"
  usageOutputTokens :: "nat option"


definition orEmpty :: "string option \<Rightarrow> string" where
  "orEmpty t = (case t of None \<Rightarrow> [] | Some s \<Rightarrow> s)"

subsection \<open>\<open>AWSBedrockMistralProvider\<close>\<close>

definition mistral_unsupported :: jsError where
  "mistral_unsupported = Error
     ''Mistral Mixtral-8x7b-instruct-v0:1 does not support direct image processing. Use extractFromText instead with pre-processed OCR text.''"

text \<open>
  \<open>ocr\<close> (lines 148-156) and \<open>extractFromImage\<close> (lines 282-288) consist of one
  \<open>throw\<close>; \<open>executeWithRetry\<close> is not called, so the log of the retry executor stays
  empty.
\<close>

definition mistral_ocr :: "string \<Rightarrow> (jsError + string \<times> Usage) \<times> retryLog" where
  "mistral_ocr imagePath = (Inl mistral_unsupported, emptyLog)"

definition mistral_extractFromImage :: "string \<Rightarrow> 's \<Rightarrow> (jsError + 'j \<times> Usage) \<times> retryLog" where
  "mistral_extractFromImage imagePath schema = (Inl mistral_unsupported, emptyLog)"



subsection \<open>\<open>AWSBedrockPixtralProvider\<close>\<close>

text \<open>
  The closure of \<open>ocr\<close> (lines 370-438). A failure to fetch the image is an error thrown
  by the closure like one of the request.
\<close>

definition pixtral_ocr_operation ::
  "string \<Rightarrow> bedrockResponse exchange \<Rightarrow> jsError + string \<times> Usage" where
  "pixtral_ocr_operation model x =
     (case sent x of
        Inl e \<Rightarrow> Inl e
      | Inr bedrockResponse \<Rightarrow>
          (let text = orEmpty (contentText bedrockResponse)
           in case buildUsage model (Finite (started x)) (Finite (ended x))
                     (usageInputTokens bedrockResponse) (usageOutputTokens bedrockResponse) of
                Inl e \<Rightarrow> Inl e
              | Inr usage \<Rightarrow> Inr (text, usage)))"

definition pixtral_ocr ::
  "string \<Rightarrow> (nat \<Rightarrow> bedrockResponse exchange) \<Rightarrow> (jsError + string \<times> Usage) \<times> retryLog" where
  "pixtral_ocr model exchanges =
     executeWithRetry pixtralRetry (\<lambda>n. pixtral_ocr_operation model (exchanges n)) ''OCR''"




subsection \<open>\<open>MaritacaProvider\<close>\<close>



section \<open>The model registry\<close>

text \<open>\<open>src/models/registry.ts\<close>: the provider classes it imports and the model lists.\<close>

datatype providerClass =
    AzureDocumentIntelligenceProvider
  | AWSTextractProvider
  | AWSBedrockProvider
  | AWSBedrockMistralProvider
  | AWSBedrockPixtralProvider
  | DashscopeProvider
  | GeminiProvider
  | GoogleDocumentAIProvider
  | LLMProvider
  | MistralProvider
  | OmniAIProvider
  | OpenAIProvider
  | OpenRouterProvider
  | TogetherProvider
  | UnstructuredProvider
  | ZeroxProvider
  | MaritacaProvider

definition OPENAI_MODELS :: "string list" where
  "OPENAI_MODELS =
    [''chatgpt-4o-latest'', ''gpt-4o-mini'', ''gpt-4o'', ''o1'', ''o1-mini'', ''o3-mini'',
     ''o4-mini'', ''gpt-4o-2024-11-20'', ''gpt-4.1'', ''gpt-4.1-mini'', ''gpt-4.1-nano'']"

definition AZURE_OPENAI_MODELS :: "string list" where
  "AZURE_OPENAI_MODELS =
    [''azure-gpt-4o-mini'', ''azure-gpt-4o'', ''azure-o1'', ''azure-o1-mini'', ''azure-o3-mini'',
     ''azure-gpt-4.1'', ''azure-gpt-4.1-mini'', ''azure-gpt-4.1-nano'']"

definition ANTHROPIC_MODELS :: "string list" where
  "ANTHROPIC_MODELS = [''claude-3-5-sonnet-20241022'', ''claude-3-7-sonnet-20250219'']"

definition DEEPSEEK_MODELS :: "string list" where
  "DEEPSEEK_MODELS = [''deepseek-chat'']"

definition GOOGLE_GENERATIVE_AI_MODELS :: "string list" where
  "GOOGLE_GENERATIVE_AI_MODELS =
    [''gemini-1.5-pro'', ''gemini-1.5-flash'', ''gemini-2.0-flash-001'',
     ''gemini-2.5-pro-exp-03-25'', ''gemini-2.5-pro-preview-03-25'',
     ''gemini-2.5-pro-preview-05-06'', ''gemini-2.5-flash-preview-04-17'']"

definition OPENROUTER_MODELS :: "string list" where
  "OPENROUTER_MODELS =
    [''qwen/qwen2.5-vl-32b-instruct:free'', ''qwen/qwen-2.5-vl-72b-instruct'',
     ''deepseek/deepseek-chat-v3-0324'', ''meta-llama/llama-3.2-11b-vision-instruct'',
     ''meta-llama/llama-3.2-90b-vision-instruct'']"

definition TOGETHER_MODELS :: "string list" where
  "TOGETHER_MODELS =
    [''meta-llama/Llama-3.2-11B-Vision-Instruct-Turbo'',
     ''meta-llama/Llama-3.2-90B-Vision-Instruct-Turbo'',
     ''meta-llama/Llama-4-Scout-17B-16E-Instruct'',
     ''meta-llama/Llama-4-Maverick-17B-128E-Instruct-FP8'']"

definition MARITACA_MODELS :: "string list" where
  "MARITACA_MODELS = [''sabia-3'', ''sabia-3.1'', ''sabiazinho-3'']"

definition AWS_BEDROCK_MODELS :: "string list" where
  "AWS_BEDROCK_MODELS = [''us.meta.llama4-maverick-17b-instruct-v1:0'']"

definition AWS_BEDROCK_MISTRAL_MODELS :: "string list" where
  "AWS_BEDROCK_MISTRAL_MODELS = [''mistral.mixtral-8x7b-instruct-v0:1'']"

definition AWS_BEDROCK_PIXTRAL_MODELS :: "string list" where
  "AWS_BEDROCK_PIXTRAL_MODELS = [''pixtral-12b-v1'', ''pixtral-12b-instruct-v1'']"

text \<open>A group of the registry; the \<open>provider\<close> of the \<open>groundTruth\<close> group is \<open>undefined\<close>.\<close>

record providerGroup =
  models :: "string list"
  provider :: "providerClass option"

text \<open>
  The object \<open>MODEL_PROVIDERS\<close> as the list of its properties in insertion order, the
  order in which \<open>Object.values\<close> lists them.
\<close>

definition MODEL_PROVIDERS :: "(string \<times> providerGroup) list" where
  "MODEL_PROVIDERS =
    [(''anthropic'', \<lparr>models = ANTHROPIC_MODELS, provider = Some LLMProvider\<rparr>),
     (''aws'', \<lparr>models = [''aws-textract''], provider = Some AWSTextractProvider\<rparr>),
     (''awsBedrock'', \<lparr>models = AWS_BEDROCK_MODELS, provider = Some AWSBedrockProvider\<rparr>),
     (''awsBedrockMistral'',
        \<lparr>models = AWS_BEDROCK_MISTRAL_MODELS, provider = Some AWSBedrockMistralProvider\<rparr>),
     (''awsBedrockPixtral'',
        \<lparr>models = AWS_BEDROCK_PIXTRAL_MODELS, provider = Some AWSBedrockPixtralProvider\<rparr>),
     (''azureOpenai'', \<lparr>models = AZURE_OPENAI_MODELS, provider = Some LLMProvider\<rparr>),
     (''gemini'', \<lparr>models = GOOGLE_GENERATIVE_AI_MODELS, provider = Some GeminiProvider\<rparr>),
     (''google'', \<lparr>models = [''google-document-ai''], provider = Some GoogleDocumentAIProvider\<rparr>),
     (''deepseek'', \<lparr>models = DEEPSEEK_MODELS, provider = Some LLMProvider\<rparr>),
     (''azure'',
        \<lparr>models = [''azure-document-intelligence''],
         provider = Some AzureDocumentIntelligenceProvider\<rparr>),
     (''mistral'', \<lparr>models = [''mistral-ocr''], provider = Some MistralProvider\<rparr>),
     (''omniai'', \<lparr>models = [''omniai''], provider = Some OmniAIProvider\<rparr>),
     (''openai'', \<lparr>models = OPENAI_MODELS, provider = Some LLMProvider\<rparr>),
     (''maritaca'', \<lparr>models = MARITACA_MODELS, provider = Some MaritacaProvider\<rparr>),
     (''openaiBase'', \<lparr>models = [''google/gemma-3-27b-it''], provider = Some OpenAIProvider\<rparr>),
     (''openrouter'', \<lparr>models = OPENROUTER_MODELS, provider = Some OpenRouterProvider\<rparr>),
     (''together'', \<lparr>models = TOGETHER_MODELS, provider = Some TogetherProvider\<rparr>),
     (''dashscope'',
        \<lparr>models = [''qwen2.5-vl-32b-instruct'', ''qwen2.5-vl-72b-instruct''],
         provider = Some DashscopeProvider\<rparr>),
     (''unstructured'', \<lparr>models = [''unstructured''], provider = Some UnstructuredProvider\<rparr>),
     (''zerox'', \<lparr>models = [''zerox''], provider = Some ZeroxProvider\<rparr>),
     (''groundTruth'', \<lparr>models = [''ground-truth''], provider = None\<rparr>)]"

text \<open>
  \<open>obj[key] = value\<close>: an existing property keeps its place and takes the new value, a
  new one goes to the end.
\<close>

fun assign :: "string \<Rightarrow> 'v \<Rightarrow> (string \<times> 'v) list \<Rightarrow> (string \<times> 'v) list" where
  "assign key v [] = [(key, v)]"
| "assign key v ((k, w) # rest) =
     (if k = key then (k, v) # rest else (k, w) # assign key v rest)"

text \<open>
  \<open>getModelProvider\<close>. It writes the \<open>openaiFt\<close> group into the registry on every call,
  so the registry is passed in and returned. \<open>instantiate cls model\<close> is what
  \<open>new cls(model)\<close> does: the constructors check the environment and may throw. The
  result is \<open>Inr None\<close> for \<open>undefined\<close>, \<open>Inr (Some p)\<close> for a provider and \<open>Inl\<close> for
  a thrown error.
\<close>

definition getModelProvider ::
  "(providerClass \<Rightarrow> string \<Rightarrow> jsError + 'p) \<Rightarrow> (string \<times> providerGroup) list \<Rightarrow> string
     \<Rightarrow> (jsError + 'p option) \<times> (string \<times> providerGroup) list" where
  "getModelProvider instantiate registry model =
     (let registry1 = assign ''openaiFt''
                        \<lparr>models = FINETUNED_MODELS, provider = Some LLMProvider\<rparr> registry
      in (case find (\<lambda>group. model \<in> set (models group)) (map snd registry1) of
            Some foundProvider \<Rightarrow>
              if model = ''ground-truth'' then Inr None
              else (case provider foundProvider of
                      None \<Rightarrow> Inl (TypeError ''foundProvider.provider is not a constructor'')
                    | Some cls \<Rightarrow>
                        (case instantiate cls model of
                           Inl e \<Rightarrow> Inl e
                         | Inr p \<Rightarrow> Inr (Some p)))
          | None \<Rightarrow> Inl (notSupported model),
          registry1))"

text \<open>Every identifier listed by some group of a registry.\<close>

definition listedModels :: "(string \<times> providerGroup) list \<Rightarrow> string set" where
  "listedModels registry = (\<Union>g \<in> set registry. set (models (snd g)))"


section \<open>Notions used to state the properties\<close>

text \<open>The first non-empty string of a list, the empty string when there is none.\<close>

fun firstCandidate :: "string list \<Rightarrow> string" where
  "firstCandidate [] = []"
| "firstCandidate (c # cs) = (if c = [] then firstCandidate cs else c)"

text \<open>Some opening brace of the text has a closing brace somewhere after it.\<close>

fun closesAfterOpen :: "string \<Rightarrow> bool" where
  "closesAfterOpen [] = False"
| "closesAfterOpen (c # cs) = (c = CHR ''{'' \<and> CHR ''}'' \<in> set cs \<or> closesAfterOpen cs)"

text \<open>
  The brace depth of a text: its opening braces minus its closing braces. A balanced block
  starts with an opening brace and returns to depth zero at its last character, not before.
\<close>

definition depth :: "string \<Rightarrow> int" where
  "depth cs = int (count_list cs CHR ''{'') - int (count_list cs CHR ''}'')"

definition balancedBlock :: "string \<Rightarrow> bool" where
  "balancedBlock c \<longleftrightarrow>
     take 1 c = ''{'' \<and> depth c = 0 \<and> (\<forall>k \<in> {1 ..< length c}. 0 < depth (take k c))"

text \<open>A number that is neither negative nor NaN.\<close>

definition nonNegative :: "jsNumber \<Rightarrow> bool" where
  "nonNegative x = (case x of Finite a \<Rightarrow> 0 \<le> a | PosInf \<Rightarrow> True | NegInf \<Rightarrow> False | NaN \<Rightarrow> False)"

section \<open>The retry executor: properties\<close>

lemma retryLoop_stops:
  assumes "k \<le> MAX_RETRIES cfg" and "a \<le> k" and "calls lg = a"
    and "\<forall>i. a \<le> i \<and> i < k \<longrightarrow> (\<exists>e. operation i = Inl e \<and> isThrottling e)"
    and "operation k = r"
    and "case r of Inr v \<Rightarrow> True | Inl e \<Rightarrow> \<not> isThrottling e"
  shows "retryLoop cfg operation nm a le lg =
           (r, \<lparr>calls = k + 1, sleeps = sleeps lg @ map (backoffDelay cfg) [max 1 a ..< k + 1]\<rparr>)"
  using assms
proof (induction "k - a" arbitrary: a lg le)
  case 0
  then have ak: "a = k" by simp
  show ?case
  proof (cases r)
    case (Inl e)
    with 0 ak show ?thesis
      by (subst retryLoop.simps) (auto simp: Let_def)
  next
    case (Inr v)
    with 0 ak show ?thesis
      by (subst retryLoop.simps) (auto simp: Let_def)
  qed
next
  case (Suc d)
  then have lt: "a < k" by simp
  with Suc.prems obtain e where e: "operation a = Inl e" "isThrottling e" by blast
  let ?slept = "if a > 0 then lg\<lparr>sleeps := sleeps lg @ [backoffDelay cfg a]\<rparr> else lg"
  let ?called = "?slept\<lparr>calls := calls ?slept + 1\<rparr>"
  have step: "retryLoop cfg operation nm a le lg = retryLoop cfg operation nm (a + 1) (Some e) ?called"
  proof -
    have "operation (calls lg) = Inl e" using e Suc.prems(3) by simp
    then show ?thesis using e(2) lt Suc.prems(1)
      by (subst retryLoop.simps) (simp add: Let_def)
  qed
  have "retryLoop cfg operation nm (a + 1) (Some e) ?called =
      (r, \<lparr>calls = k + 1, sleeps = sleeps ?called @ map (backoffDelay cfg) [max 1 (a + 1) ..< k + 1]\<rparr>)"
    using Suc.hyps(2) Suc.prems lt by (intro Suc.hyps(1)) auto
  moreover have "sleeps ?called @ map (backoffDelay cfg) [max 1 (a + 1) ..< k + 1]
      = sleeps lg @ map (backoffDelay cfg) [max 1 a ..< k + 1]"
    using lt by (cases "a = 0") (simp_all add: upt_conv_Cons)
  ultimately show ?case using step by simp
qed

lemma retryLoop_exhausted:
  assumes "a \<le> MAX_RETRIES cfg + 1" and "calls lg = a"
    and "\<forall>i. a \<le> i \<and> i \<le> MAX_RETRIES cfg \<longrightarrow> (\<exists>e. operation i = Inl e \<and> isThrottling e)"
    and "if a \<le> MAX_RETRIES cfg then operation (MAX_RETRIES cfg) = Inl elast else le = Some elast"
  shows "retryLoop cfg operation nm a le lg =
           (Inl (Error (nm @ '' failed after '' @ toString (MAX_RETRIES cfg + 1)
                        @ '' attempts. Last error: '' @ message elast)),
            \<lparr>calls = MAX_RETRIES cfg + 1,
             sleeps = sleeps lg @ map (backoffDelay cfg) [max 1 a ..< MAX_RETRIES cfg + 1]\<rparr>)"
  using assms
proof (induction "MAX_RETRIES cfg + 1 - a" arbitrary: a lg le)
  case 0
  then have a: "a = MAX_RETRIES cfg + 1" by simp
  with 0 show ?case
    by (subst retryLoop.simps) simp
next
  case (Suc d)
  then have lt: "a \<le> MAX_RETRIES cfg" by simp
  with Suc.prems obtain e where e: "operation a = Inl e" "isThrottling e" by blast
  let ?slept = "if a > 0 then lg\<lparr>sleeps := sleeps lg @ [backoffDelay cfg a]\<rparr> else lg"
  let ?called = "?slept\<lparr>calls := calls ?slept + 1\<rparr>"
  have step: "retryLoop cfg operation nm a le lg = retryLoop cfg operation nm (a + 1) (Some e) ?called"
  proof -
    have "operation (calls lg) = Inl e" using e Suc.prems(2) by simp
    then show ?thesis using e(2) lt
      by (subst retryLoop.simps) (simp add: Let_def)
  qed
  have last: "if a + 1 \<le> MAX_RETRIES cfg then operation (MAX_RETRIES cfg) = Inl elast
              else Some e = Some elast"
    using Suc.prems(4) lt e by (auto simp: not_le less_Suc_eq_le dest!: le_antisym)
  have "retryLoop cfg operation nm (a + 1) (Some e) ?called =
      (Inl (Error (nm @ '' failed after '' @ toString (MAX_RETRIES cfg + 1)
                        @ '' attempts. Last error: '' @ message elast)),
       \<lparr>calls = MAX_RETRIES cfg + 1,
        sleeps = sleeps ?called @ map (backoffDelay cfg) [max 1 (a + 1) ..< MAX_RETRIES cfg + 1]\<rparr>)"
    using Suc.hyps(2) Suc.prems(2,3) lt last by (intro Suc.hyps(1)) auto
  moreover have "sleeps ?called @ map (backoffDelay cfg) [max 1 (a + 1) ..< MAX_RETRIES cfg + 1]
      = sleeps lg @ map (backoffDelay cfg) [max 1 a ..< MAX_RETRIES cfg + 1]"
    using lt by (cases "a = 0"; cases "a = MAX_RETRIES cfg") (simp_all add: upt_conv_Cons)
  ultimately show ?case using step by simp
qed

lemma backoffDelay_mono: "i \<le> j \<Longrightarrow> backoffDelay cfg i \<le> backoffDelay cfg j"
  unfolding backoffDelay_def
  by (intro min.mono mult_le_mono2 power_increasing) auto

lemma backoffDelay_capped: "backoffDelay cfg i \<le> MAX_DELAY cfg"
  by (simp add: backoffDelay_def)

lemma sorted_backoff: "sorted (map (backoffDelay cfg) [a ..< b])"
  by (simp add: sorted_map sorted_wrt_iff_nth_less backoffDelay_mono)


lemma executeWithRetry_stops:
  assumes "k \<le> MAX_RETRIES cfg"
    and "\<forall>i<k. \<exists>e. operation i = Inl e \<and> isThrottling e"
    and "operation k = r"
    and "case r of Inr v \<Rightarrow> True | Inl e \<Rightarrow> \<not> isThrottling e"
  shows "executeWithRetry cfg operation nm =
           (r, \<lparr>calls = k + 1, sleeps = map (backoffDelay cfg) [1 ..< k + 1]\<rparr>)"
proof -
  have "retryLoop cfg operation nm 0 None emptyLog =
      (r, \<lparr>calls = k + 1,
           sleeps = sleeps emptyLog @ map (backoffDelay cfg) [max 1 0 ..< k + 1]\<rparr>)"
    using assms by (intro retryLoop_stops) (simp_all add: emptyLog_def)
  then show ?thesis by (simp add: executeWithRetry_def emptyLog_def)
qed

lemma executeWithRetry_exhausted:
  assumes "\<forall>i \<le> MAX_RETRIES cfg. \<exists>e. operation i = Inl e \<and> isThrottling e"
    and "operation (MAX_RETRIES cfg) = Inl elast"
  shows "executeWithRetry cfg operation nm =
           (Inl (Error (nm @ '' failed after '' @ toString (MAX_RETRIES cfg + 1)
                        @ '' attempts. Last error: '' @ message elast)),
            \<lparr>calls = MAX_RETRIES cfg + 1,
             sleeps = map (backoffDelay cfg) [1 ..< MAX_RETRIES cfg + 1]\<rparr>)"
proof -
  have "retryLoop cfg operation nm 0 None emptyLog =
      (Inl (Error (nm @ '' failed after '' @ toString (MAX_RETRIES cfg + 1)
                        @ '' attempts. Last error: '' @ message elast)),
       \<lparr>calls = MAX_RETRIES cfg + 1,
        sleeps = sleeps emptyLog @ map (backoffDelay cfg) [max 1 0 ..< MAX_RETRIES cfg + 1]\<rparr>)"
    using assms by (intro retryLoop_exhausted) (simp_all add: emptyLog_def)
  then show ?thesis by (simp add: executeWithRetry_def emptyLog_def)
qed


lemma toString_digit: "n < 10 \<Longrightarrow> toString n = [digit n]"
  by (simp add: toString.simps)

lemma toString_6: "toString 6 = ''6''"
  by (simp add: toString_digit digit_def)

text \<open>
  C1. An operation that throws a throttling error on its first \<open>k\<close> invocations,
  \<open>k < MAX_RETRIES\<close>, and then succeeds: \<open>executeWithRetry\<close> returns that success after
  exactly \<open>k + 1\<close> invocations and exactly \<open>k\<close> sleeps; the sleep before retry \<open>i\<close> is
  \<open>min (BASE_DELAY * 2 ^ (i - 1)) MAX_DELAY\<close>, so the delays never decrease and never
  exceed \<open>MAX_DELAY\<close>. This holds for the constants of either provider.
\<close>

theorem executeWithRetry_succeeds_after_throttling:
  assumes "k < MAX_RETRIES cfg"
    and "\<forall>i<k. \<exists>e. operation i = Inl e \<and> isThrottling e"
    and "operation k = Inr v"
  shows "executeWithRetry cfg operation operationName =
           (Inr v, \<lparr>calls = k + 1,
                    sleeps = map (\<lambda>i. min (BASE_DELAY cfg * 2 ^ (i - 1)) (MAX_DELAY cfg))
                               [1 ..< k + 1]\<rparr>)
         \<and> length (sleeps (snd (executeWithRetry cfg operation operationName))) = k
         \<and> sorted (sleeps (snd (executeWithRetry cfg operation operationName)))
         \<and> (\<forall>d \<in> set (sleeps (snd (executeWithRetry cfg operation operationName))).
               d \<le> MAX_DELAY cfg)"
proof -
  have run: "executeWithRetry cfg operation operationName =
      (Inr v, \<lparr>calls = k + 1, sleeps = map (backoffDelay cfg) [1 ..< k + 1]\<rparr>)"
    using assms by (intro executeWithRetry_stops) simp_all
  have same: "map (backoffDelay cfg) [1 ..< k + 1] =
      map (\<lambda>i. min (BASE_DELAY cfg * 2 ^ (i - 1)) (MAX_DELAY cfg)) [1 ..< k + 1]"
    by (simp add: backoffDelay_def)
  have srt: "sorted (map (backoffDelay cfg) [1 ..< k + 1])" by (rule sorted_backoff)
  have cap: "\<forall>d \<in> set (map (backoffDelay cfg) [1 ..< k + 1]). d \<le> MAX_DELAY cfg"
    by (auto simp: backoffDelay_capped)
  show ?thesis using run same srt cap by simp
qed

theorem executeWithRetry_succeeds_after_throttling_witness:
  "(2::nat) < MAX_RETRIES pixtralRetry
   \<and> isThrottling \<lparr>name = ''ThrottlingException'', message = ''slow down'',
                     httpStatusCode = Some 429\<rparr>
   \<and> executeWithRetry pixtralRetry
        (\<lambda>n. if n < 2 then Inl \<lparr>name = ''ThrottlingException'', message = ''slow down'',
                                 httpStatusCode = Some 429\<rparr>
              else Inr (7::nat)) ''OCR''
       = (Inr 7, \<lparr>calls = 3, sleeps = [2000, 4000]\<rparr>)"
  using executeWithRetry_succeeds_after_throttling
    [of 2 pixtralRetry
        "\<lambda>n. if n < 2 then Inl \<lparr>name = ''ThrottlingException'', message = ''slow down'',
                                 httpStatusCode = Some 429\<rparr>
              else Inr (7::nat)" 7 "''OCR''"]
  by (simp add: pixtralRetry_def isThrottling_def upt_conv_Cons)

text \<open>
  C2. An operation that throws a throttling error on every attempt:
  \<open>executeWithRetry\<close> gives up after exactly \<open>MAX_RETRIES + 1\<close> invocations with a new error
  whose message states that number of attempts and ends with the message of the last
  error thrown.
\<close>

theorem executeWithRetry_gives_up_after_max_retries:
  assumes "\<forall>i \<le> MAX_RETRIES cfg. \<exists>e. operation i = Inl e \<and> isThrottling e"
    and "operation (MAX_RETRIES cfg) = Inl lastError"
  shows "fst (executeWithRetry cfg operation operationName) =
           Inl (Error (operationName @ '' failed after '' @ toString (MAX_RETRIES cfg + 1)
                       @ '' attempts. Last error: '' @ message lastError))
         \<and> calls (snd (executeWithRetry cfg operation operationName)) = MAX_RETRIES cfg + 1"
  using executeWithRetry_exhausted [OF assms, of operationName] by simp

theorem executeWithRetry_gives_up_after_max_retries_witness:
  "isThrottling \<lparr>name = ''ThrottlingException'', message = ''Too many requests'',
                  httpStatusCode = None\<rparr>
   \<and> fst (executeWithRetry mistralRetry
        (\<lambda>n. Inl \<lparr>name = ''ThrottlingException'', message = ''Too many requests'',
                   httpStatusCode = None\<rparr> :: jsError + nat) ''Text Extraction'')
       = Inl \<lparr>name = ''Error'',
              message = ''Text Extraction failed after 6 attempts. Last error: Too many requests'',
              httpStatusCode = None\<rparr>
   \<and> calls (snd (executeWithRetry mistralRetry
        (\<lambda>n. Inl \<lparr>name = ''ThrottlingException'', message = ''Too many requests'',
                   httpStatusCode = None\<rparr> :: jsError + nat) ''Text Extraction'')) = 6"
  using executeWithRetry_gives_up_after_max_retries
    [of mistralRetry
        "\<lambda>n. Inl \<lparr>name = ''ThrottlingException'', message = ''Too many requests'',
                   httpStatusCode = None\<rparr> :: jsError + nat"
        "\<lparr>name = ''ThrottlingException'', message = ''Too many requests'',
          httpStatusCode = None\<rparr>" "''Text Extraction''"]
  by (simp add: mistralRetry_def isThrottling_def Error_def toString_6)

text \<open>
  C3. The retry constants. The Mistral provider has 5, 1000 and 30000. The Pixtral provider
  has 5, 2000 and 60000, which is not what its configuration guide prints (5, 1000, 30000;
  delays of 1, 2, 4, 8 and 16 seconds): a call throttled throughout sleeps 2, 4, 8, 16 and
  32 seconds.
\<close>

theorem pixtral_retry_constants:
  "mistralRetry = \<lparr>MAX_RETRIES = 5, BASE_DELAY = 1000, MAX_DELAY = 30000\<rparr>
   \<and> pixtralRetry = \<lparr>MAX_RETRIES = 5, BASE_DELAY = 2000, MAX_DELAY = 60000\<rparr>
   \<and> pixtralRetry \<noteq> pixtralRetry_documented
   \<and> sleeps (snd (pixtral_ocr model
        (\<lambda>n. \<lparr>started = 0,
               sent = Inl \<lparr>name = ''ThrottlingException'', message = ''Too many requests'',
                           httpStatusCode = Some 429\<rparr>,
               ended = 0\<rparr>)))
       = [2000, 4000, 8000, 16000, 32000]
   \<and> sleeps (snd (executeWithRetry pixtralRetry_documented
        (\<lambda>n. Inl \<lparr>name = ''ThrottlingException'', message = ''Too many requests'',
                   httpStatusCode = Some 429\<rparr> :: jsError + nat) ''OCR''))
       = [1000, 2000, 4000, 8000, 16000]"
proof -
  let ?e = "\<lparr>name = ''ThrottlingException'', message = ''Too many requests'',
             httpStatusCode = Some 429\<rparr>"
  have thr: "isThrottling ?e" by (simp add: isThrottling_def)
  have a: "sleeps (snd (executeWithRetry cfg (\<lambda>n. Inl ?e :: jsError + 'x) nm))
      = map (backoffDelay cfg) [1 ..< MAX_RETRIES cfg + 1]" for cfg nm
    using thr by (subst executeWithRetry_exhausted [where elast = ?e]) simp_all
  have p: "pixtral_ocr model (\<lambda>n. \<lparr>started = 0, sent = Inl ?e, ended = 0\<rparr>)
      = executeWithRetry pixtralRetry (\<lambda>n. Inl ?e) ''OCR''"
    by (simp add: pixtral_ocr_def pixtral_ocr_operation_def)
  show ?thesis
    unfolding p a
    by (simp add: mistralRetry_def pixtralRetry_def pixtralRetry_documented_def
        backoffDelay_def upt_conv_Cons)
qed

text \<open>
  C4. An error that is neither named \<open>ThrottlingException\<close> nor carries the status code 429
  is thrown on as it is, by the attempt that met it: no further invocation and no further
  sleep. When the first attempt meets it, there is one invocation and no sleep at all.
\<close>

theorem executeWithRetry_permanent_error_propagates:
  assumes "j \<le> MAX_RETRIES cfg"
    and "\<forall>i<j. \<exists>e'. operation i = Inl e' \<and> isThrottling e'"
    and "operation j = Inl e"
    and "name e \<noteq> ''ThrottlingException''"
    and "httpStatusCode e \<noteq> Some 429"
  shows "executeWithRetry cfg operation operationName =
           (Inl e, \<lparr>calls = j + 1, sleeps = map (backoffDelay cfg) [1 ..< j + 1]\<rparr>)
         \<and> (j = 0 \<longrightarrow> executeWithRetry cfg operation operationName =
                         (Inl e, \<lparr>calls = 1, sleeps = []\<rparr>))"
proof -
  have "executeWithRetry cfg operation operationName =
      (Inl e, \<lparr>calls = j + 1, sleeps = map (backoffDelay cfg) [1 ..< j + 1]\<rparr>)"
    using assms by (intro executeWithRetry_stops) (simp_all add: isThrottling_def)
  then show ?thesis by simp
qed

theorem executeWithRetry_permanent_error_propagates_witness:
  "(0::nat) \<le> MAX_RETRIES mistralRetry
   \<and> name \<lparr>name = ''AccessDeniedException'', message = ''no access'',
            httpStatusCode = Some 403\<rparr> \<noteq> ''ThrottlingException''
   \<and> httpStatusCode \<lparr>name = ''AccessDeniedException'', message = ''no access'',
            httpStatusCode = Some 403\<rparr> \<noteq> Some 429
   \<and> executeWithRetry mistralRetry
        (\<lambda>n. Inl \<lparr>name = ''AccessDeniedException'', message = ''no access'',
                   httpStatusCode = Some 403\<rparr> :: jsError + nat) ''Text Extraction''
       = (Inl \<lparr>name = ''AccessDeniedException'', message = ''no access'',
               httpStatusCode = Some 403\<rparr>, \<lparr>calls = 1, sleeps = []\<rparr>)"
  using executeWithRetry_permanent_error_propagates
    [of 0 mistralRetry
        "\<lambda>n. Inl \<lparr>name = ''AccessDeniedException'', message = ''no access'',
                   httpStatusCode = Some 403\<rparr> :: jsError + nat"
        "\<lparr>name = ''AccessDeniedException'', message = ''no access'',
          httpStatusCode = Some 403\<rparr>" "''Text Extraction''"]
  by simp

section \<open>JSON recovery: properties\<close>

lemma indexOf_ge: "- 1 \<le> indexOf s c"
  by (induction s) (auto simp: Let_def)

lemma indexOf_absent: "indexOf s c = - 1 \<longleftrightarrow> c \<notin> set s"
proof (induction s)
  case Nil
  show ?case by simp
next
  case (Cons x xs)
  have "- 1 \<le> indexOf xs c" by (rule indexOf_ge)
  with Cons show ?case by (auto simp: Let_def)
qed

lemma lastIndexOf_ge: "- 1 \<le> lastIndexOf s c"
  by (induction s) (auto simp: Let_def)

lemma indexOf_less: "indexOf s c < int (length s)"
  by (induction s) (auto simp: Let_def)

lemma lastIndexOf_absent: "lastIndexOf s c = - 1 \<longleftrightarrow> c \<notin> set s"
proof (induction s)
  case Nil
  show ?case by simp
next
  case (Cons x xs)
  have "- 1 \<le> lastIndexOf xs c" by (rule lastIndexOf_ge)
  with Cons show ?case by (auto simp: Let_def)
qed

lemma lastIndexOf_present: "c \<in> set s \<Longrightarrow> 0 \<le> lastIndexOf s c"
  using lastIndexOf_absent [of s c] lastIndexOf_ge [of s c] by linarith

lemma closesAfterOpen_has_close: "closesAfterOpen s \<Longrightarrow> CHR ''}'' \<in> set s"
  by (induction s) auto

lemma bounds_iff_closesAfterOpen:
  "indexOf s CHR ''{'' \<noteq> - 1 \<and> lastIndexOf s CHR ''}'' \<noteq> - 1
     \<and> lastIndexOf s CHR ''}'' > indexOf s CHR ''{''  \<longleftrightarrow> closesAfterOpen s"
proof (induction s)
  case Nil
  show ?case by simp
next
  case (Cons x xs)
  have f: "- 1 \<le> indexOf xs CHR ''{''" by (rule indexOf_ge)
  have l: "- 1 \<le> lastIndexOf xs CHR ''}''" by (rule lastIndexOf_ge)
  show ?case
  proof (cases "x = CHR ''{''")
    case True
    have "closesAfterOpen xs \<Longrightarrow> CHR ''}'' \<in> set xs" by (rule closesAfterOpen_has_close)
    with True l show ?thesis
      by (auto simp: Let_def lastIndexOf_absent dest: lastIndexOf_present)
  next
    case False
    with Cons f l show ?thesis
      by (auto simp: Let_def)
  qed
qed

lemma substring_nonempty:
  assumes "0 \<le> a" "a < b" "a < int (length s)"
  shows "substring s a b \<noteq> []"
  using assms by (auto simp: substring_def Let_def min_def max_def)

lemma mistral_strategy1_nonempty: "mistral_strategy1 s \<noteq> [] \<longleftrightarrow> closesAfterOpen s"
proof -
  let ?f = "indexOf s CHR ''{''" and ?l = "lastIndexOf s CHR ''}''"
  have "substring s ?f (?l + 1) \<noteq> []" if "?f \<noteq> - 1" "?l > ?f"
  proof (rule substring_nonempty)
    show "0 \<le> ?f" using that(1) indexOf_ge [of s "CHR ''{''"] by simp
    show "?f < ?l + 1" using that(2) by simp
    show "?f < int (length s)" by (rule indexOf_less)
  qed
  then show ?thesis
    using bounds_iff_closesAfterOpen [of s]
    by (auto simp: mistral_strategy1_def Let_def)
qed

lemma mistral_scan_end:
  "mistral_scan cs i braceCount startIndex = (s, e) \<Longrightarrow> e \<noteq> - 1 \<Longrightarrow>
     (startIndex \<noteq> - 1 \<and> CHR ''}'' \<in> set cs) \<or> closesAfterOpen cs"
proof (induction cs arbitrary: i braceCount startIndex)
  case Nil
  then show ?case by simp
next
  case (Cons c cs)
  show ?case
  proof (cases "c = CHR ''{''")
    case True
    with Cons.prems have "mistral_scan cs (i + 1) (braceCount + 1)
        (if braceCount = 0 then int i else startIndex) = (s, e)" by simp
    from Cons.IH [OF this Cons.prems(2)] True show ?thesis by auto
  next
    case False
    show ?thesis
    proof (cases "c = CHR ''}''")
      case True
      show ?thesis
      proof (cases "braceCount - 1 = 0 \<and> startIndex \<noteq> - 1")
        case True
        with \<open>c = CHR ''}''\<close> show ?thesis by simp
      next
        case no: False
        with True False Cons.prems
        have "mistral_scan cs (i + 1) (braceCount - 1) startIndex = (s, e)" by auto
        from Cons.IH [OF this Cons.prems(2)] show ?thesis by auto
      qed
    next
      case nc: False
      with False Cons.prems have "mistral_scan cs (i + 1) braceCount startIndex = (s, e)" by simp
      from Cons.IH [OF this Cons.prems(2)] show ?thesis by auto
    qed
  qed
qed

lemma mistral_strategy2_nonempty: "mistral_strategy2 s \<noteq> [] \<Longrightarrow> closesAfterOpen s"
proof -
  assume ne: "mistral_strategy2 s \<noteq> []"
  obtain st e where r: "mistral_scan s 0 0 (- 1) = (st, e)" by (cases "mistral_scan s 0 0 (- 1)")
  with ne have "e \<noteq> - 1" by (auto simp: mistral_strategy2_def split: if_splits)
  from mistral_scan_end [OF r this] show ?thesis by simp
qed

lemma matchBraceToLastBrace_Some: "matchBraceToLastBrace s = Some m \<Longrightarrow> closesAfterOpen s"
  by (induction s) (auto simp: lastIndexOf_absent split: if_splits)

lemma mistral_strategy3_nonempty: "mistral_strategy3 s \<noteq> [] \<Longrightarrow> closesAfterOpen s"
  by (auto simp: mistral_strategy3_def split: option.splits dest: matchBraceToLastBrace_Some)

text \<open>
  C9. In the Mistral provider, strategy 2 and strategy 3 find a candidate only in texts in
  which strategy 1 finds one. So the candidate chosen is always the one of strategy 1, and
  the blocks of strategies 2 and 3, which run only when strategy 1 found nothing, never
  find anything.
\<close>

theorem mistral_strategies_2_and_3_never_decide:
  "(mistral_strategy2 t \<noteq> [] \<longrightarrow> mistral_strategy1 t \<noteq> [])
   \<and> (mistral_strategy3 t \<noteq> [] \<longrightarrow> mistral_strategy1 t \<noteq> [])
   \<and> mistral_jsonString t = mistral_strategy1 t"
proof -
  have 2: "mistral_strategy2 t \<noteq> [] \<longrightarrow> mistral_strategy1 t \<noteq> []"
    using mistral_strategy2_nonempty [of t] mistral_strategy1_nonempty [of t] by blast
  have 3: "mistral_strategy3 t \<noteq> [] \<longrightarrow> mistral_strategy1 t \<noteq> []"
    using mistral_strategy3_nonempty [of t] mistral_strategy1_nonempty [of t] by blast
  from 2 3 show ?thesis by (auto simp: mistral_jsonString_def Let_def)
qed

theorem mistral_strategies_2_and_3_never_decide_witness:
  "mistral_strategy2 ''a{b{c}d}e}'' = ''{b{c}d}''
   \<and> mistral_strategy3 ''a{b{c}d}e}'' = ''{b{c}d}e}''
   \<and> mistral_strategy1 ''a{b{c}d}e}'' = ''{b{c}d}e}''
   \<and> mistral_jsonString ''a{b{c}d}e}'' = ''{b{c}d}e}''"
  using mistral_strategies_2_and_3_never_decide [of "''a{b{c}d}e}''"]
  by (simp add: mistral_strategy1_def mistral_strategy2_def mistral_strategy3_def
      substring_def Let_def)

lemma indexOf_split:
  "c \<in> set s \<Longrightarrow> \<exists>pre rest. s = pre @ c # rest \<and> c \<notin> set pre \<and> indexOf s c = int (length pre)"
proof (induction s)
  case Nil
  then show ?case by simp
next
  case (Cons x xs)
  show ?case
  proof (cases "x = c")
    case True
    then have "x # xs = [] @ c # xs \<and> c \<notin> set [] \<and> indexOf (x # xs) c = int (length ([]::string))"
      by simp
    then show ?thesis by blast
  next
    case False
    with Cons.prems have "c \<in> set xs" by simp
    from Cons.IH [OF this] obtain pre rest
      where p: "xs = pre @ c # rest" "c \<notin> set pre" "indexOf xs c = int (length pre)" by blast
    from False p have "x # xs = (x # pre) @ c # rest \<and> c \<notin> set (x # pre)
        \<and> indexOf (x # xs) c = int (length (x # pre))"
      by (simp add: Let_def)
    then show ?thesis by blast
  qed
qed

lemma lastIndexOf_split:
  "c \<in> set s \<Longrightarrow>
     \<exists>pre rest. s = pre @ c # rest \<and> c \<notin> set rest \<and> lastIndexOf s c = int (length pre)"
proof (induction s)
  case Nil
  then show ?case by simp
next
  case (Cons x xs)
  show ?case
  proof (cases "c \<in> set xs")
    case True
    from Cons.IH [OF this] obtain pre rest
      where p: "xs = pre @ c # rest" "c \<notin> set rest" "lastIndexOf xs c = int (length pre)" by blast
    then have "x # xs = (x # pre) @ c # rest \<and> c \<notin> set rest
        \<and> lastIndexOf (x # xs) c = int (length (x # pre))"
      by (simp add: Let_def)
    then show ?thesis by blast
  next
    case False
    with Cons.prems have x: "x = c" by simp
    from False have "lastIndexOf xs c = - 1" by (simp add: lastIndexOf_absent)
    with x False have "x # xs = [] @ c # xs \<and> c \<notin> set xs
        \<and> lastIndexOf (x # xs) c = int (length ([]::string))"
      by (simp add: Let_def)
    then show ?thesis by blast
  qed
qed

lemma substring_middle:
  "substring (pre @ mid @ post) (int (length pre)) (int (length pre + length mid)) = mid"
  by (simp add: substring_def Let_def min_def max_def)

lemma substring_at:
  "a = int (length pre) \<Longrightarrow> b = int (length pre + length mid) \<Longrightarrow> s = pre @ mid @ post
     \<Longrightarrow> substring s a b = mid"
  using substring_middle [of pre mid post] by simp

lemma mistral_strategy1_exact_bounds:
  assumes "mistral_strategy1 t \<noteq> []"
  shows "\<exists>pre mid post. t = pre @ ''{'' @ mid @ ''}'' @ post
           \<and> CHR ''{'' \<notin> set pre \<and> CHR ''}'' \<notin> set post
           \<and> mistral_strategy1 t = ''{'' @ mid @ ''}''"
proof -
  let ?f = "indexOf t CHR ''{''" and ?l = "lastIndexOf t CHR ''}''"
  from assms have c: "?f \<noteq> - 1" "?l \<noteq> - 1" "?l > ?f"
    and s: "mistral_strategy1 t = substring t ?f (?l + 1)"
    by (auto simp: mistral_strategy1_def Let_def split: if_splits)
  from c(1) have "CHR ''{'' \<in> set t" by (simp add: indexOf_absent)
  from indexOf_split [OF this] obtain pre r1
    where p: "t = pre @ CHR ''{'' # r1" "CHR ''{'' \<notin> set pre" "?f = int (length pre)" by blast
  from c(2) have "CHR ''}'' \<in> set t" by (simp add: lastIndexOf_absent)
  from lastIndexOf_split [OF this] obtain pre2 post
    where q: "t = pre2 @ CHR ''}'' # post" "CHR ''}'' \<notin> set post" "?l = int (length pre2)"
    by blast
  from c(3) p(3) q(3) have len: "length pre < length pre2" by simp
  from p(1) q(1) have "pre @ CHR ''{'' # r1 = pre2 @ CHR ''}'' # post" by simp
  then obtain us where "(pre = pre2 @ us \<and> us @ CHR ''{'' # r1 = CHR ''}'' # post)
      \<or> (pre @ us = pre2 \<and> CHR ''{'' # r1 = us @ CHR ''}'' # post)"
    by (auto simp: append_eq_append_conv2)
  with len have us: "pre @ us = pre2" "CHR ''{'' # r1 = us @ CHR ''}'' # post" by auto
  with len obtain mid where mid: "us = CHR ''{'' # mid" by (cases us) auto
  with us have r1: "r1 = mid @ CHR ''}'' # post" by simp
  have t: "t = pre @ ''{'' @ mid @ ''}'' @ post" using p(1) r1 by simp
  have l1: "?l + 1 = int (length pre + length (''{'' @ mid @ ''}''))"
    using q(3) us(1) mid by auto
  have t': "t = pre @ (''{'' @ mid @ ''}'') @ post" by (subst p(1), subst r1) simp
  have "substring t ?f (?l + 1) = ''{'' @ mid @ ''}''"
    by (rule substring_at [OF p(3) l1 t'])
  with s have m: "mistral_strategy1 t = ''{'' @ mid @ ''}''" by (simp only:)
  show ?thesis
  proof (intro exI conjI)
    show "t = pre @ ''{'' @ mid @ ''}'' @ post" by (rule t)
    show "CHR ''{'' \<notin> set pre" by (rule p(2))
    show "CHR ''}'' \<notin> set post" by (rule q(2))
    show "mistral_strategy1 t = ''{'' @ mid @ ''}''" by (rule m)
  qed
qed

lemma depth_Nil [simp]: "depth [] = 0"
  by (simp add: depth_def)

lemma depth_Cons:
  "depth (c # cs) = (if c = CHR ''{'' then 1 else if c = CHR ''}'' then - 1 else 0) + depth cs"
  by (simp add: depth_def)

lemma depth_append: "depth (a @ b) = depth a + depth b"
  by (induction a) (simp_all add: depth_Cons)

lemma pixtral_scan_spec:
  assumes "1 \<le> bc" and "pixtral_scan cs i bc e = (bc', e')"
  shows "(bc' = 0 \<and> (\<exists>k<length cs. e' = int (i + k) \<and> bc + depth (take (Suc k) cs) = 0
                        \<and> (\<forall>j<k. 0 < bc + depth (take (Suc j) cs))))
         \<or> (bc' \<noteq> 0 \<and> e' = e \<and> (\<forall>j<length cs. 0 < bc + depth (take (Suc j) cs)))"
  using assms
proof (induction cs arbitrary: i bc)
  case Nil
  then show ?case by auto
next
  case (Cons c cs)
  let ?step = "if c = CHR ''{'' then 1 else if c = CHR ''}'' then - 1 else (0::int)"
  show ?case
  proof (cases "c = CHR ''}'' \<and> bc - 1 = 0")
    case True
    with Cons.prems have "bc' = 0" "e' = int i" by simp_all
    moreover have "bc + depth (take (Suc 0) (c # cs)) = 0"
      using True by (simp add: depth_Cons)
    ultimately have "bc' = 0 \<and> (\<exists>k<length (c # cs). e' = int (i + k)
        \<and> bc + depth (take (Suc k) (c # cs)) = 0
        \<and> (\<forall>j<k. 0 < bc + depth (take (Suc j) (c # cs))))"
      by (intro conjI exI [of _ 0]) simp_all
    then show ?thesis by blast
  next
    case False
    with Cons.prems have run: "pixtral_scan cs (i + 1) (bc + ?step) e = (bc', e')"
      by (auto split: if_splits)
    from False Cons.prems(1) have pos: "1 \<le> bc + ?step" by auto
    have shift: "bc + depth (take (Suc (Suc j)) (c # cs)) = bc + ?step + depth (take (Suc j) cs)" for j
      by (simp add: depth_Cons)
    have first: "0 < bc + depth (take (Suc 0) (c # cs))"
      using pos by (simp add: depth_Cons)
    from Cons.IH [OF pos run] show ?thesis
    proof (elim disjE conjE exE)
      fix k
      assume k: "bc' = 0" "k < length cs" "e' = int (i + 1 + k)"
        "bc + ?step + depth (take (Suc k) cs) = 0"
        "\<forall>j<k. 0 < bc + ?step + depth (take (Suc j) cs)"
      have "\<forall>j<Suc k. 0 < bc + depth (take (Suc j) (c # cs))"
      proof (intro allI impI)
        fix j assume "j < Suc k"
        then show "0 < bc + depth (take (Suc j) (c # cs))"
          using first k(5) shift by (cases j) auto
      qed
      moreover have "bc + depth (take (Suc (Suc k)) (c # cs)) = 0"
        using k(4) shift by simp
      ultimately have "bc' = 0 \<and> (\<exists>k<length (c # cs). e' = int (i + k)
          \<and> bc + depth (take (Suc k) (c # cs)) = 0
          \<and> (\<forall>j<k. 0 < bc + depth (take (Suc j) (c # cs))))"
        using k(1,2,3) by (intro conjI exI [of _ "Suc k"]) simp_all
      then show ?thesis by blast
    next
      assume n: "bc' \<noteq> 0" "e' = e" "\<forall>j<length cs. 0 < bc + ?step + depth (take (Suc j) cs)"
      have "\<forall>j<length (c # cs). 0 < bc + depth (take (Suc j) (c # cs))"
      proof (intro allI impI)
        fix j assume "j < length (c # cs)"
        then show "0 < bc + depth (take (Suc j) (c # cs))"
          using first n(3) shift by (cases j) auto
      qed
      with n(1,2) show ?thesis by blast
    qed
  qed
qed

text \<open>Once a start is recorded, Mistral's scan goes on as Pixtral's does.\<close>

lemma mistral_scan_started:
  assumes "1 \<le> bc" and "st \<noteq> - 1"
  shows "mistral_scan cs i bc st =
           (st, if fst (pixtral_scan cs i bc e) = 0 then snd (pixtral_scan cs i bc e) else - 1)"
  using assms(1)
proof (induction cs arbitrary: i bc)
  case Nil
  then show ?case by simp
next
  case (Cons c cs)
  show ?case
  proof (cases "c = CHR ''}'' \<and> bc - 1 = 0")
    case True
    with assms(2) show ?thesis by simp
  next
    case False
    let ?step = "if c = CHR ''{'' then 1 else if c = CHR ''}'' then - 1 else (0::int)"
    from False Cons.prems have pos: "1 \<le> bc + ?step" by auto
    from False Cons.prems assms(2) have
      "mistral_scan (c # cs) i bc st = mistral_scan cs (i + 1) (bc + ?step) st"
      "pixtral_scan (c # cs) i bc e = pixtral_scan cs (i + 1) (bc + ?step) e"
      by auto
    with Cons.IH [OF pos] show ?thesis by simp
  qed
qed

lemma mistral_scan_unstarted:
  assumes "mistral_scan cs i bc (- 1) = (st', e')"
  shows "(\<exists>m<length cs. cs ! m = CHR ''{'' \<and> bc + depth (take m cs) = 0
            \<and> (\<forall>j<m. cs ! j = CHR ''{'' \<longrightarrow> bc + depth (take j cs) \<noteq> 0)
            \<and> mistral_scan (drop (Suc m) cs) (i + Suc m) 1 (int (i + m)) = (st', e'))
         \<or> (st' = - 1 \<and> e' = - 1
            \<and> (\<forall>j<length cs. cs ! j = CHR ''{'' \<longrightarrow> bc + depth (take j cs) \<noteq> 0))"
  using assms
proof (induction cs arbitrary: i bc)
  case Nil
  then show ?case by simp
next
  case (Cons c cs)
  show ?case
  proof (cases "c = CHR ''{'' \<and> bc = 0")
    case True
    with Cons.prems have "mistral_scan cs (i + 1) 1 (int i) = (st', e')" by simp
    with True have "0 < length (c # cs) \<and> (c # cs) ! 0 = CHR ''{''
        \<and> bc + depth (take 0 (c # cs)) = 0
        \<and> (\<forall>j<0. (c # cs) ! j = CHR ''{'' \<longrightarrow> bc + depth (take j (c # cs)) \<noteq> 0)
        \<and> mistral_scan (drop (Suc 0) (c # cs)) (i + Suc 0) 1 (int (i + 0)) = (st', e')"
      by simp
    then show ?thesis by blast
  next
    case False
    let ?step = "if c = CHR ''{'' then 1 else if c = CHR ''}'' then - 1 else (0::int)"
    from False Cons.prems have run: "mistral_scan cs (i + 1) (bc + ?step) (- 1) = (st', e')"
      by (auto split: if_splits)
    have shift: "bc + depth (take (Suc j) (c # cs)) = bc + ?step + depth (take j cs)" for j
      by (simp add: depth_Cons)
    have first: "(c # cs) ! 0 = CHR ''{'' \<longrightarrow> bc + depth (take 0 (c # cs)) \<noteq> 0"
      using False by simp
    from Cons.IH [OF run] show ?thesis
    proof (elim disjE conjE exE)
      fix m
      assume m: "m < length cs" "cs ! m = CHR ''{''" "bc + ?step + depth (take m cs) = 0"
        "\<forall>j<m. cs ! j = CHR ''{'' \<longrightarrow> bc + ?step + depth (take j cs) \<noteq> 0"
        "mistral_scan (drop (Suc m) cs) (i + 1 + Suc m) 1 (int (i + 1 + m)) = (st', e')"
      have "\<forall>j<Suc m. (c # cs) ! j = CHR ''{'' \<longrightarrow> bc + depth (take j (c # cs)) \<noteq> 0"
      proof (intro allI impI)
        fix j assume "j < Suc m" "(c # cs) ! j = CHR ''{''"
        then show "bc + depth (take j (c # cs)) \<noteq> 0"
          using first m(4) shift by (cases j) auto
      qed
      moreover have "bc + depth (take (Suc m) (c # cs)) = 0" using m(3) shift by simp
      moreover have "mistral_scan (drop (Suc (Suc m)) (c # cs)) (i + Suc (Suc m)) 1
          (int (i + Suc m)) = (st', e')"
        using m(5) by simp
      ultimately have "Suc m < length (c # cs) \<and> (c # cs) ! Suc m = CHR ''{''
          \<and> bc + depth (take (Suc m) (c # cs)) = 0
          \<and> (\<forall>j<Suc m. (c # cs) ! j = CHR ''{'' \<longrightarrow> bc + depth (take j (c # cs)) \<noteq> 0)
          \<and> mistral_scan (drop (Suc (Suc m)) (c # cs)) (i + Suc (Suc m)) 1
               (int (i + Suc m)) = (st', e')"
        using m(1,2) by simp
      then show ?thesis by blast
    next
      assume n: "st' = - 1" "e' = - 1"
        "\<forall>j<length cs. cs ! j = CHR ''{'' \<longrightarrow> bc + ?step + depth (take j cs) \<noteq> 0"
      have "\<forall>j<length (c # cs). (c # cs) ! j = CHR ''{'' \<longrightarrow> bc + depth (take j (c # cs)) \<noteq> 0"
      proof (intro allI impI)
        fix j assume "j < length (c # cs)" "(c # cs) ! j = CHR ''{''"
        then show "bc + depth (take j (c # cs)) \<noteq> 0"
          using first n(3) shift by (cases j) auto
      qed
      with n(1,2) show ?thesis by blast
    qed
  qed
qed

lemma indexOf_first: "c \<notin> set pre \<Longrightarrow> indexOf (pre @ c # rest) c = int (length pre)"
  by (induction pre) (auto simp: Let_def)

lemma lastIndexOf_last: "c \<notin> set post \<Longrightarrow> lastIndexOf (pre @ c # post) c = int (length pre)"
proof (induction pre)
  case Nil
  then show ?case by (simp add: Let_def lastIndexOf_absent)
next
  case (Cons x pre)
  then show ?case by (simp add: Let_def)
qed

lemma scan_finds_block:
  assumes "pixtral_scan r i 1 e = (0, e')"
  shows "\<exists>k<length r. e' = int (i + k) \<and> balancedBlock (CHR ''{'' # take (Suc k) r)"
proof -
  from pixtral_scan_spec [OF _ assms] obtain k
    where k: "k < length r" "e' = int (i + k)" "1 + depth (take (Suc k) r) = 0"
      "\<forall>j<k. 0 < 1 + depth (take (Suc j) r)"
    by auto
  let ?c = "CHR ''{'' # take (Suc k) r"
  have len: "length ?c = Suc (Suc k)" using k(1) by simp
  have "0 < depth (take m ?c)" if "m \<in> {1 ..< length ?c}" for m
  proof (cases m)
    case 0
    with that show ?thesis by simp
  next
    case (Suc n)
    with that len have n: "n \<le> k" by simp
    then have tk: "take m ?c = CHR ''{'' # take n r" using Suc by (simp add: min_def)
    show ?thesis
    proof (cases n)
      case 0
      with tk show ?thesis by (simp add: depth_Cons)
    next
      case (Suc j)
      with n k(4) have "0 < 1 + depth (take (Suc j) r)" by simp
      with tk Suc show ?thesis by (simp add: depth_Cons)
    qed
  qed
  moreover have "depth ?c = 0" using k(3) by (simp add: depth_Cons)
  ultimately have "balancedBlock ?c" by (simp add: balancedBlock_def)
  with k(1,2) show ?thesis by blast
qed

lemma block_found_by_scan:
  assumes "balancedBlock (CHR ''{'' # c')"
  shows "c' \<noteq> [] \<and> pixtral_scan (c' @ post) i 1 e = (0, int (i + length c') - 1)"
proof -
  let ?r = "c' @ post"
  from assms have d: "1 + depth c' = 0"
    and pre: "\<forall>m \<in> {1 ..< Suc (length c')}. 0 < depth (take m (CHR ''{'' # c'))"
    by (simp_all add: balancedBlock_def depth_Cons)
  from d have ne: "c' \<noteq> []" by auto
  then obtain n where n: "length c' = Suc n" by (cases c') auto
  have low: "0 < 1 + depth (take (Suc j) ?r)" if "j < n" for j
  proof -
    from that n have "Suc (Suc j) \<in> {1 ..< Suc (length c')}" by simp
    with pre have "0 < depth (take (Suc (Suc j)) (CHR ''{'' # c'))" by blast
    then have "0 < 1 + depth (take (Suc j) c')" by (simp add: depth_Cons)
    moreover have "take (Suc j) ?r = take (Suc j) c'" using that n by simp
    ultimately show ?thesis by (simp only:)
  qed
  have at: "1 + depth (take (Suc n) ?r) = 0" using d n by simp
  obtain bc' e' where run: "pixtral_scan ?r i 1 e = (bc', e')" by (cases "pixtral_scan ?r i 1 e")
  from pixtral_scan_spec [OF _ run] have
    "(bc' = 0 \<and> (\<exists>k<length ?r. e' = int (i + k) \<and> 1 + depth (take (Suc k) ?r) = 0
        \<and> (\<forall>j<k. 0 < 1 + depth (take (Suc j) ?r))))
     \<or> (bc' \<noteq> 0 \<and> e' = e \<and> (\<forall>j<length ?r. 0 < 1 + depth (take (Suc j) ?r)))"
    by simp
  then show ?thesis
  proof (elim disjE conjE exE)
    fix k
    assume k: "bc' = 0" "k < length ?r" "e' = int (i + k)" "1 + depth (take (Suc k) ?r) = 0"
      "\<forall>j<k. 0 < 1 + depth (take (Suc j) ?r)"
    have "k = n"
    proof (rule ccontr)
      assume "k \<noteq> n"
      then consider "k < n" | "n < k" by linarith
      then show False
      proof cases
        case 1
        from low [OF this] k(4) show False by simp
      next
        case 2
        with k(5) at show False by auto
      qed
    qed
    with k(1,3) n run ne show ?thesis by simp
  next
    assume "\<forall>j<length ?r. 0 < 1 + depth (take (Suc j) ?r)"
    moreover have "n < length ?r" using n by simp
    ultimately have "0 < 1 + depth (take (Suc n) ?r)" by blast
    with at show ?thesis by simp
  qed
qed

lemma pixtral_strategy1_iff:
  "pixtral_strategy1 t = c \<and> c \<noteq> [] \<longleftrightarrow>
     (\<exists>pre post. t = pre @ c @ post \<and> CHR ''{'' \<notin> set pre \<and> balancedBlock c)"
proof
  assume a: "pixtral_strategy1 t = c \<and> c \<noteq> []"
  let ?f = "indexOf t CHR ''{''"
  from a have f: "?f \<noteq> - 1" by (auto simp: pixtral_strategy1_def Let_def split: if_splits)
  then have "CHR ''{'' \<in> set t" by (simp add: indexOf_absent)
  from indexOf_split [OF this] obtain pre r
    where p: "t = pre @ CHR ''{'' # r" "CHR ''{'' \<notin> set pre" "?f = int (length pre)" by blast
  have dr: "drop (length pre) t = CHR ''{'' # r" using p(1) by simp
  obtain bc' e' where run: "pixtral_scan r (Suc (length pre)) 1 ?f = (bc', e')"
    by (cases "pixtral_scan r (Suc (length pre)) 1 ?f")
  have cand: "pixtral_strategy1 t = (if bc' = 0 then substring t ?f (e' + 1) else [])"
    using f run p(3) by (simp add: pixtral_strategy1_def Let_def dr)
  with a have z: "bc' = 0" and c: "c = substring t ?f (e' + 1)" by (auto split: if_splits)
  from scan_finds_block [OF run [unfolded z]] obtain k
    where k: "k < length r" "e' = int (Suc (length pre) + k)"
      "balancedBlock (CHR ''{'' # take (Suc k) r)" by blast
  let ?mid = "CHR ''{'' # take (Suc k) r"
  have t: "t = pre @ ?mid @ drop (Suc k) r" using p(1) by simp
  have b: "e' + 1 = int (length pre + length ?mid)" using k(1,2) by simp
  have "c = ?mid" unfolding c by (rule substring_at [OF p(3) b t])
  with t p(2) k(3) show "\<exists>pre post. t = pre @ c @ post \<and> CHR ''{'' \<notin> set pre \<and> balancedBlock c"
    by blast
next
  assume "\<exists>pre post. t = pre @ c @ post \<and> CHR ''{'' \<notin> set pre \<and> balancedBlock c"
  then obtain pre post where d: "t = pre @ c @ post" "CHR ''{'' \<notin> set pre" "balancedBlock c"
    by blast
  from d(3) obtain c' where c: "c = CHR ''{'' # c'"
    by (cases c) (auto simp: balancedBlock_def)
  from block_found_by_scan [OF d(3) [unfolded c]]
  have ne: "c' \<noteq> []"
    and run: "pixtral_scan (c' @ post) i 1 e = (0, int (i + length c') - 1)" for i e
    by blast+
  have f: "indexOf t CHR ''{'' = int (length pre)"
    unfolding d(1) c using indexOf_first [OF d(2)] by simp
  have dr: "drop (length pre) t = CHR ''{'' # c' @ post" by (simp add: d(1) c)
  have cand: "pixtral_strategy1 t =
      substring t (int (length pre)) (int (Suc (length pre) + length c') - 1 + 1)"
    by (simp add: pixtral_strategy1_def Let_def f dr run)
  have b: "int (Suc (length pre) + length c') - 1 + 1 = int (length pre + length c)"
    by (simp add: c)
  have "pixtral_strategy1 t = c"
    unfolding cand by (rule substring_at [OF refl b d(1)])
  with c show "pixtral_strategy1 t = c \<and> c \<noteq> []" by simp
qed

lemma mistral_strategy1_iff:
  "mistral_strategy1 t = c \<and> c \<noteq> [] \<longleftrightarrow>
     (\<exists>pre mid post. t = pre @ ''{'' @ mid @ ''}'' @ post
        \<and> CHR ''{'' \<notin> set pre \<and> CHR ''}'' \<notin> set post \<and> c = ''{'' @ mid @ ''}'')"
proof
  assume "mistral_strategy1 t = c \<and> c \<noteq> []"
  with mistral_strategy1_exact_bounds [of t]
  show "\<exists>pre mid post. t = pre @ ''{'' @ mid @ ''}'' @ post
      \<and> CHR ''{'' \<notin> set pre \<and> CHR ''}'' \<notin> set post \<and> c = ''{'' @ mid @ ''}''"
    by auto
next
  assume "\<exists>pre mid post. t = pre @ ''{'' @ mid @ ''}'' @ post
      \<and> CHR ''{'' \<notin> set pre \<and> CHR ''}'' \<notin> set post \<and> c = ''{'' @ mid @ ''}''"
  then obtain pre mid post where d: "t = pre @ ''{'' @ mid @ ''}'' @ post"
    "CHR ''{'' \<notin> set pre" "CHR ''}'' \<notin> set post" "c = ''{'' @ mid @ ''}''" by blast
  have f: "indexOf t CHR ''{'' = int (length pre)"
    unfolding d(1) using indexOf_first [OF d(2)] by simp
  have l: "lastIndexOf t CHR ''}'' = int (length (pre @ ''{'' @ mid))"
  proof -
    have "lastIndexOf ((pre @ ''{'' @ mid) @ CHR ''}'' # post) CHR ''}''
        = int (length (pre @ ''{'' @ mid))"
      by (rule lastIndexOf_last [OF d(3)])
    moreover have "(pre @ ''{'' @ mid) @ CHR ''}'' # post = t" by (simp add: d(1))
    ultimately show ?thesis by (simp only:)
  qed
  have cand: "mistral_strategy1 t =
      substring t (int (length pre)) (int (length (pre @ ''{'' @ mid)) + 1)"
    by (simp add: mistral_strategy1_def Let_def f l)
  have b: "int (length (pre @ ''{'' @ mid)) + 1 = int (length pre + length c)"
    by (simp add: d(4))
  have t: "t = pre @ c @ post" by (simp add: d(1,4))
  have "mistral_strategy1 t = c" unfolding cand by (rule substring_at [OF refl b t])
  with d(4) show "mistral_strategy1 t = c \<and> c \<noteq> []" by simp
qed

lemma mistral_strategy2_iff:
  "mistral_strategy2 t = c \<and> c \<noteq> [] \<longleftrightarrow>
     (\<exists>pre post. t = pre @ c @ post \<and> balancedBlock c \<and> depth pre = 0
        \<and> (\<forall>k<length pre. pre ! k = CHR ''{'' \<longrightarrow> depth (take k pre) \<noteq> 0))"
proof
  assume a: "mistral_strategy2 t = c \<and> c \<noteq> []"
  obtain st e where run: "mistral_scan t 0 0 (- 1) = (st, e)"
    by (cases "mistral_scan t 0 0 (- 1)")
  with a have st: "st \<noteq> - 1" and e: "e \<noteq> - 1" and c: "c = substring t st (e + 1)"
    by (auto simp: mistral_strategy2_def split: if_splits)
  from mistral_scan_unstarted [OF run] st obtain m
    where m: "m < length t" "t ! m = CHR ''{''" "depth (take m t) = 0"
      "\<forall>j<m. t ! j = CHR ''{'' \<longrightarrow> depth (take j t) \<noteq> 0"
      "mistral_scan (drop (Suc m) t) (Suc m) 1 (int m) = (st, e)"
    by auto
  obtain pre r where pr: "t = pre @ CHR ''{'' # r" "take m t = pre" "drop (Suc m) t = r"
    "length pre = m"
  proof
    show "t = take m t @ CHR ''{'' # drop (Suc m) t"
      unfolding m(2) [symmetric] by (rule id_take_nth_drop [OF m(1)])
    show "length (take m t) = m" using m(1) by simp
  qed simp_all
  have "mistral_scan r (Suc m) 1 (int m) =
      (int m, if fst (pixtral_scan r (Suc m) 1 0) = 0
              then snd (pixtral_scan r (Suc m) 1 0) else - 1)"
    by (rule mistral_scan_started) simp_all
  with m(5) e pr(3) have stm: "st = int m" and z: "fst (pixtral_scan r (Suc m) 1 0) = 0"
    and es: "e = snd (pixtral_scan r (Suc m) 1 0)"
    by (auto split: if_splits)
  from z es have "pixtral_scan r (Suc m) 1 0 = (0, e)" by (simp add: prod_eq_iff)
  from scan_finds_block [OF this] obtain k
    where k: "k < length r" "e = int (Suc m + k)" "balancedBlock (CHR ''{'' # take (Suc k) r)"
    by blast
  let ?mid = "CHR ''{'' # take (Suc k) r"
  have t: "t = pre @ ?mid @ drop (Suc k) r" by (simp add: pr(1))
  have a': "st = int (length pre)" using stm pr(4) by simp
  have b: "e + 1 = int (length pre + length ?mid)" using k(1,2) pr(4) by simp
  have "c = ?mid" unfolding c by (rule substring_at [OF a' b t])
  moreover have "\<forall>j<length pre. pre ! j = CHR ''{'' \<longrightarrow> depth (take j pre) \<noteq> 0"
  proof (intro allI impI)
    fix j assume j: "j < length pre" "pre ! j = CHR ''{''"
    then have "t ! j = pre ! j" "take j t = take j pre" by (simp_all add: pr(1) nth_append)
    with j m(4) pr(4) show "depth (take j pre) \<noteq> 0" by auto
  qed
  moreover have "depth pre = 0" using m(3) pr(2) by simp
  ultimately show "\<exists>pre post. t = pre @ c @ post \<and> balancedBlock c \<and> depth pre = 0
      \<and> (\<forall>k<length pre. pre ! k = CHR ''{'' \<longrightarrow> depth (take k pre) \<noteq> 0)"
    using t k(3) by blast
next
  assume "\<exists>pre post. t = pre @ c @ post \<and> balancedBlock c \<and> depth pre = 0
      \<and> (\<forall>k<length pre. pre ! k = CHR ''{'' \<longrightarrow> depth (take k pre) \<noteq> 0)"
  then obtain pre post where d: "t = pre @ c @ post" "balancedBlock c" "depth pre = 0"
    "\<forall>k<length pre. pre ! k = CHR ''{'' \<longrightarrow> depth (take k pre) \<noteq> 0" by blast
  from d(2) obtain c' where c: "c = CHR ''{'' # c'"
    by (cases c) (auto simp: balancedBlock_def)
  from block_found_by_scan [OF d(2) [unfolded c]]
  have ne: "c' \<noteq> []"
    and blk: "pixtral_scan (c' @ post) i 1 e = (0, int (i + length c') - 1)" for i e
    by blast+
  let ?n = "length pre"
  have at: "t ! ?n = CHR ''{''" "take ?n t = pre" "?n < length t"
    by (simp_all add: d(1) c)
  obtain st e where run: "mistral_scan t 0 0 (- 1) = (st, e)"
    by (cases "mistral_scan t 0 0 (- 1)")
  from mistral_scan_unstarted [OF run] have
    "(\<exists>m<length t. t ! m = CHR ''{'' \<and> depth (take m t) = 0
        \<and> (\<forall>j<m. t ! j = CHR ''{'' \<longrightarrow> depth (take j t) \<noteq> 0)
        \<and> mistral_scan (drop (Suc m) t) (Suc m) 1 (int m) = (st, e))
     \<or> (st = - 1 \<and> e = - 1 \<and> (\<forall>j<length t. t ! j = CHR ''{'' \<longrightarrow> depth (take j t) \<noteq> 0))"
    by simp
  then obtain m where m: "m < length t" "t ! m = CHR ''{''" "depth (take m t) = 0"
      "\<forall>j<m. t ! j = CHR ''{'' \<longrightarrow> depth (take j t) \<noteq> 0"
      "mistral_scan (drop (Suc m) t) (Suc m) 1 (int m) = (st, e)"
    using at d(3) by auto
  have mn: "m = ?n"
  proof (rule ccontr)
    assume "m \<noteq> ?n"
    then consider "m < ?n" | "?n < m" by linarith
    then show False
    proof cases
      case 1
      then have "pre ! m = t ! m" "take m pre = take m t" by (simp_all add: d(1) nth_append)
      with 1 d(4) m(2,3) show False by auto
    next
      case 2
      with m(4) at d(3) show False by auto
    qed
  qed
  have dr: "drop (Suc m) t = c' @ post" by (simp add: mn d(1) c)
  have "mistral_scan (c' @ post) (Suc m) 1 (int m) =
      (int m, if fst (pixtral_scan (c' @ post) (Suc m) 1 0) = 0
              then snd (pixtral_scan (c' @ post) (Suc m) 1 0) else - 1)"
    by (rule mistral_scan_started) simp_all
  with m(5) dr blk [of "Suc m" 0] have res: "st = int m" "e = int (Suc m + length c') - 1"
    by simp_all
  have cand: "mistral_strategy2 t = substring t (int m) (int (Suc m + length c') - 1 + 1)"
    using run res by (simp add: mistral_strategy2_def)
  have b: "int (Suc m + length c') - 1 + 1 = int (length pre + length c)"
    by (simp add: mn c)
  have a': "int m = int (length pre)" by (simp add: mn)
  have "mistral_strategy2 t = c" unfolding cand by (rule substring_at [OF a' b d(1)])
  with c show "mistral_strategy2 t = c \<and> c \<noteq> []" by simp
qed

lemma matchBraceToNextBrace_no_close:
  "CHR ''}'' \<notin> set t \<Longrightarrow> matchBraceToNextBrace t = None"
  by (induction t) (auto simp: indexOf_absent)

lemma matchBraceToNextBrace_iff:
  "matchBraceToNextBrace t = Some m \<longleftrightarrow>
     (\<exists>pre mid post. t = pre @ ''{'' @ mid @ ''}'' @ post
        \<and> CHR ''{'' \<notin> set pre \<and> CHR ''}'' \<notin> set mid \<and> m = ''{'' @ mid @ ''}'')"
proof
  assume "matchBraceToNextBrace t = Some m"
  then show "\<exists>pre mid post. t = pre @ ''{'' @ mid @ ''}'' @ post
      \<and> CHR ''{'' \<notin> set pre \<and> CHR ''}'' \<notin> set mid \<and> m = ''{'' @ mid @ ''}''"
  proof (induction t)
    case Nil
    then show ?case by simp
  next
    case (Cons c cs)
    show ?case
    proof (cases "c = CHR ''{'' \<and> indexOf cs CHR ''}'' \<noteq> - 1")
      case True
      then have "CHR ''}'' \<in> set cs" by (simp add: indexOf_absent)
      from indexOf_split [OF this] obtain mid post
        where s: "cs = mid @ CHR ''}'' # post" "CHR ''}'' \<notin> set mid"
          "indexOf cs CHR ''}'' = int (length mid)" by blast
      from True Cons.prems s(3) have "m = c # take (length mid + 1) cs" by simp
      with s(1) True have "m = ''{'' @ mid @ ''}''" by simp
      moreover have "c # cs = [] @ ''{'' @ mid @ ''}'' @ post" using True s(1) by simp
      ultimately show ?thesis using s(2) by (intro exI [of _ "[]"] exI [of _ mid] exI [of _ post]) simp
    next
      case False
      with Cons.prems have rec: "matchBraceToNextBrace cs = Some m" by (auto split: if_splits)
      from Cons.IH [OF rec] obtain pre mid post
        where d: "cs = pre @ ''{'' @ mid @ ''}'' @ post" "CHR ''{'' \<notin> set pre"
          "CHR ''}'' \<notin> set mid" "m = ''{'' @ mid @ ''}''" by blast
      from d(1) have "CHR ''}'' \<in> set cs" by simp
      then have "indexOf cs CHR ''}'' \<noteq> - 1" by (simp add: indexOf_absent)
      with False have "c \<noteq> CHR ''{''" by simp
      with d have "c # cs = (c # pre) @ ''{'' @ mid @ ''}'' @ post \<and> CHR ''{'' \<notin> set (c # pre)
          \<and> CHR ''}'' \<notin> set mid \<and> m = ''{'' @ mid @ ''}''" by simp
      then show ?thesis by blast
    qed
  qed
next
  assume "\<exists>pre mid post. t = pre @ ''{'' @ mid @ ''}'' @ post
      \<and> CHR ''{'' \<notin> set pre \<and> CHR ''}'' \<notin> set mid \<and> m = ''{'' @ mid @ ''}''"
  then obtain pre mid post where d: "t = pre @ ''{'' @ mid @ ''}'' @ post"
    "CHR ''{'' \<notin> set pre" "CHR ''}'' \<notin> set mid" "m = ''{'' @ mid @ ''}''" by blast
  have "matchBraceToNextBrace (pre @ ''{'' @ mid @ ''}'' @ post) = Some (''{'' @ mid @ ''}'')"
    using d(2)
  proof (induction pre)
    case Nil
    have "indexOf (mid @ CHR ''}'' # post) CHR ''}'' = int (length mid)"
      by (rule indexOf_first [OF d(3)])
    then show ?case by simp
  next
    case (Cons x pre)
    then show ?case by auto
  qed
  with d(1,4) show "matchBraceToNextBrace t = Some m" by simp
qed

lemma matchBraceToLastBrace_iff:
  "matchBraceToLastBrace t = Some m \<longleftrightarrow>
     (\<exists>pre mid post. t = pre @ ''{'' @ mid @ ''}'' @ post
        \<and> CHR ''{'' \<notin> set pre \<and> CHR ''}'' \<notin> set post \<and> m = ''{'' @ mid @ ''}'')"
proof
  assume "matchBraceToLastBrace t = Some m"
  then show "\<exists>pre mid post. t = pre @ ''{'' @ mid @ ''}'' @ post
      \<and> CHR ''{'' \<notin> set pre \<and> CHR ''}'' \<notin> set post \<and> m = ''{'' @ mid @ ''}''"
  proof (induction t)
    case Nil
    then show ?case by simp
  next
    case (Cons c cs)
    show ?case
    proof (cases "c = CHR ''{'' \<and> lastIndexOf cs CHR ''}'' \<noteq> - 1")
      case True
      then have "CHR ''}'' \<in> set cs" by (simp add: lastIndexOf_absent)
      from lastIndexOf_split [OF this] obtain mid post
        where s: "cs = mid @ CHR ''}'' # post" "CHR ''}'' \<notin> set post"
          "lastIndexOf cs CHR ''}'' = int (length mid)" by blast
      from True Cons.prems s(3) have "m = c # take (length mid + 1) cs" by simp
      with s(1) True have "m = ''{'' @ mid @ ''}''" by simp
      moreover have "c # cs = [] @ ''{'' @ mid @ ''}'' @ post" using True s(1) by simp
      ultimately show ?thesis using s(2) by (intro exI [of _ "[]"] exI [of _ mid] exI [of _ post]) simp
    next
      case False
      with Cons.prems have rec: "matchBraceToLastBrace cs = Some m" by (auto split: if_splits)
      from Cons.IH [OF rec] obtain pre mid post
        where d: "cs = pre @ ''{'' @ mid @ ''}'' @ post" "CHR ''{'' \<notin> set pre"
          "CHR ''}'' \<notin> set post" "m = ''{'' @ mid @ ''}''" by blast
      from d(1) have "CHR ''}'' \<in> set cs" by simp
      then have "lastIndexOf cs CHR ''}'' \<noteq> - 1" by (simp add: lastIndexOf_absent)
      with False have "c \<noteq> CHR ''{''" by simp
      with d have "c # cs = (c # pre) @ ''{'' @ mid @ ''}'' @ post \<and> CHR ''{'' \<notin> set (c # pre)
          \<and> CHR ''}'' \<notin> set post \<and> m = ''{'' @ mid @ ''}''" by simp
      then show ?thesis by blast
    qed
  qed
next
  assume "\<exists>pre mid post. t = pre @ ''{'' @ mid @ ''}'' @ post
      \<and> CHR ''{'' \<notin> set pre \<and> CHR ''}'' \<notin> set post \<and> m = ''{'' @ mid @ ''}''"
  then obtain pre mid post where d: "t = pre @ ''{'' @ mid @ ''}'' @ post"
    "CHR ''{'' \<notin> set pre" "CHR ''}'' \<notin> set post" "m = ''{'' @ mid @ ''}''" by blast
  have "matchBraceToLastBrace (pre @ ''{'' @ mid @ ''}'' @ post) = Some (''{'' @ mid @ ''}'')"
    using d(2)
  proof (induction pre)
    case Nil
    have "lastIndexOf (mid @ CHR ''}'' # post) CHR ''}'' = int (length mid)"
      by (rule lastIndexOf_last [OF d(3)])
    then show ?case by simp
  next
    case (Cons x pre)
    then show ?case by auto
  qed
  with d(1,4) show "matchBraceToLastBrace t = Some m" by simp
qed

lemma pixtral_strategy2_iff:
  "pixtral_strategy2 t = c \<and> c \<noteq> [] \<longleftrightarrow>
     (\<exists>pre mid post. t = pre @ ''{'' @ mid @ ''}'' @ post
        \<and> CHR ''{'' \<notin> set pre \<and> CHR ''}'' \<notin> set mid \<and> c = ''{'' @ mid @ ''}'')"
proof -
  have "pixtral_strategy2 t = c \<and> c \<noteq> [] \<longleftrightarrow> matchBraceToNextBrace t = Some c"
    using matchBraceToNextBrace_iff [of t]
    by (cases "matchBraceToNextBrace t") (auto simp: pixtral_strategy2_def)
  then show ?thesis by (simp only: matchBraceToNextBrace_iff)
qed

lemma mistral_strategy3_eq_strategy1: "mistral_strategy3 t = mistral_strategy1 t"
proof (cases "mistral_strategy1 t = []")
  case True
  with mistral_strategy3_nonempty [of t] mistral_strategy1_nonempty [of t]
  show ?thesis by auto
next
  case False
  then have "mistral_strategy1 t = mistral_strategy1 t \<and> mistral_strategy1 t \<noteq> []" by simp
  then have "matchBraceToLastBrace t = Some (mistral_strategy1 t)"
    by (simp only: mistral_strategy1_iff matchBraceToLastBrace_iff)
  then show ?thesis by (simp add: mistral_strategy3_def)
qed

lemma pixtral_lineScan_iff:
  "pixtral_lineScan ls = c \<and> c \<noteq> [] \<longleftrightarrow>
     (\<exists>before line after. ls = before @ line # after \<and> c = trim line
        \<and> take 1 c = ''{'' \<and> CHR ''}'' \<in> set c
        \<and> (\<forall>l \<in> set before. \<not> (take 1 (trim l) = ''{'' \<and> CHR ''}'' \<in> set (trim l))))"
proof (induction ls)
  case Nil
  show ?case by simp
next
  case (Cons l ls)
  let ?ok = "\<lambda>l. take 1 (trim l) = ''{'' \<and> CHR ''}'' \<in> set (trim l)"
  show ?case
  proof (cases "?ok l")
    case True
    then have run: "pixtral_lineScan (l # ls) = trim l" by (simp add: Let_def)
    show ?thesis
    proof
      assume "pixtral_lineScan (l # ls) = c \<and> c \<noteq> []"
      with run True have "l # ls = [] @ l # ls \<and> c = trim l \<and> take 1 c = ''{''
          \<and> CHR ''}'' \<in> set c \<and> (\<forall>l' \<in> set []. \<not> ?ok l')" by auto
      then show "\<exists>before line after. l # ls = before @ line # after \<and> c = trim line
          \<and> take 1 c = ''{'' \<and> CHR ''}'' \<in> set c \<and> (\<forall>l \<in> set before. \<not> ?ok l)"
        by blast
    next
      assume "\<exists>before line after. l # ls = before @ line # after \<and> c = trim line
          \<and> take 1 c = ''{'' \<and> CHR ''}'' \<in> set c \<and> (\<forall>l \<in> set before. \<not> ?ok l)"
      then obtain before line after where d: "l # ls = before @ line # after" "c = trim line"
        "take 1 c = ''{''" "\<forall>l \<in> set before. \<not> ?ok l" by blast
      from d(1,4) True have "before = []" by (cases before) auto
      with d(1) have "line = l" by simp
      with d(2,3) run show "pixtral_lineScan (l # ls) = c \<and> c \<noteq> []" by auto
    qed
  next
    case False
    then have run: "pixtral_lineScan (l # ls) = pixtral_lineScan ls" by (auto simp: Let_def)
    show ?thesis
    proof
      assume "pixtral_lineScan (l # ls) = c \<and> c \<noteq> []"
      with run Cons.IH obtain before line after where d: "ls = before @ line # after"
        "c = trim line" "take 1 c = ''{''" "CHR ''}'' \<in> set c" "\<forall>l \<in> set before. \<not> ?ok l"
        by auto
      with False have "l # ls = (l # before) @ line # after \<and> c = trim line
          \<and> take 1 c = ''{'' \<and> CHR ''}'' \<in> set c \<and> (\<forall>l' \<in> set (l # before). \<not> ?ok l')"
        by simp
      then show "\<exists>before line after. l # ls = before @ line # after \<and> c = trim line
          \<and> take 1 c = ''{'' \<and> CHR ''}'' \<in> set c \<and> (\<forall>l \<in> set before. \<not> ?ok l)"
        by blast
    next
      assume "\<exists>before line after. l # ls = before @ line # after \<and> c = trim line
          \<and> take 1 c = ''{'' \<and> CHR ''}'' \<in> set c \<and> (\<forall>l \<in> set before. \<not> ?ok l)"
      then obtain before line after where d: "l # ls = before @ line # after" "c = trim line"
        "take 1 c = ''{''" "CHR ''}'' \<in> set c" "\<forall>l \<in> set before. \<not> ?ok l" by blast
      from d(1,2,3,4) False obtain before' where b: "before = l # before'"
        by (cases before) auto
      with d have "ls = before' @ line # after \<and> c = trim line \<and> take 1 c = ''{''
          \<and> CHR ''}'' \<in> set c \<and> (\<forall>l \<in> set before'. \<not> ?ok l)" by simp
      then have "pixtral_lineScan ls = c \<and> c \<noteq> []" using Cons.IH by blast
      with run show "pixtral_lineScan (l # ls) = c \<and> c \<noteq> []" by simp
    qed
  qed
qed

lemma splitLines_nonempty: "splitLines t \<noteq> []"
  by (induction t) (auto split: list.splits)

lemma splitLines_joined:
  "concat (map (\<lambda>l. l @ [CHR 0x0A]) (splitLines t)) = t @ [CHR 0x0A]"
proof (induction t)
  case Nil
  show ?case by simp
next
  case (Cons c cs)
  obtain l ls where s: "splitLines cs = l # ls"
    using splitLines_nonempty [of cs] by (cases "splitLines cs") auto
  with Cons show ?case by auto
qed

lemma splitLines_no_line_feed: "l \<in> set (splitLines t) \<Longrightarrow> CHR 0x0A \<notin> set l"
proof (induction t arbitrary: l)
  case Nil
  then show ?case by simp
next
  case (Cons c cs)
  obtain l' ls where s: "splitLines cs = l' # ls"
    using splitLines_nonempty [of cs] by (cases "splitLines cs") auto
  with Cons show ?case by (auto split: if_splits)
qed

lemma trim_spec:
  "\<exists>a b. l = a @ trim l @ b \<and> (\<forall>x \<in> set a. isWhiteSpace x) \<and> (\<forall>x \<in> set b. isWhiteSpace x)
         \<and> (trim l \<noteq> [] \<longrightarrow> \<not> isWhiteSpace (hd (trim l)) \<and> \<not> isWhiteSpace (last (trim l)))"
proof -
  let ?a = "takeWhile isWhiteSpace l" and ?d = "dropWhile isWhiteSpace l"
  let ?b = "rev (takeWhile isWhiteSpace (rev ?d))"
  have tr: "trim l = rev (dropWhile isWhiteSpace (rev ?d))" by (simp add: trim_def)
  have "rev (dropWhile isWhiteSpace (rev ?d)) @ ?b
      = rev (takeWhile isWhiteSpace (rev ?d) @ dropWhile isWhiteSpace (rev ?d))"
    by (simp only: rev_append)
  also have "\<dots> = rev (rev ?d)" by (simp only: takeWhile_dropWhile_id)
  also have "\<dots> = ?d" by (simp only: rev_rev_ident)
  finally have d: "?d = trim l @ ?b" unfolding tr by (rule sym)
  have "l = ?a @ ?d" by simp
  with d have l: "l = ?a @ trim l @ ?b" by simp
  have a: "\<forall>x \<in> set ?a. isWhiteSpace x" by (auto dest: set_takeWhileD)
  have b: "\<forall>x \<in> set ?b. isWhiteSpace x" by (auto dest: set_takeWhileD)
  have ends: "\<not> isWhiteSpace (hd (trim l)) \<and> \<not> isWhiteSpace (last (trim l))" if ne: "trim l \<noteq> []"
  proof
    from ne d have "?d \<noteq> []" by (metis append_is_Nil_conv)
    then have "\<not> isWhiteSpace (hd ?d)" by (rule hd_dropWhile)
    moreover from d ne have "hd ?d = hd (trim l)" by (metis hd_append2)
    ultimately show "\<not> isWhiteSpace (hd (trim l))" by simp
    from ne tr have "dropWhile isWhiteSpace (rev ?d) \<noteq> []" by auto
    then have "\<not> isWhiteSpace (hd (dropWhile isWhiteSpace (rev ?d)))" by (rule hd_dropWhile)
    then show "\<not> isWhiteSpace (last (trim l))" using ne tr by (simp add: last_rev)
  qed
  from l a b ends show ?thesis by blast
qed

lemma mistral_parse_example:
  \<open>mistral_parseResponse JSON_parse ''Result: {"total": 12} ''
     = Inr (JObject [(''total'', JNumber ''12'')])\<close>
  by code_simp


lemma recovery_examples:
  \<open>mistral_strategy1 ''Result: {"total": 12} '' = ''{"total": 12}''
   \<and> mistral_strategy1 ''no braces here'' = []
   \<and> mistral_strategy2 ''no braces here'' = []
   \<and> mistral_strategy3 ''no braces here'' = []
   \<and> pixtral_strategy1 ''{"total": 12} and more }'' = ''{"total": 12}''\<close>
  by code_simp

lemma nested_object_examples:
  \<open>pixtral_strategy1 ''{"a":{}}}'' = ''{"a":{}}''
   \<and> pixtral_strategy2 ''{"a":{}}}'' = ''{"a":{}''
   \<and> mistral_strategy1 ''{"a":{}}}'' = ''{"a":{}}}''
   \<and> mistral_strategy2 ''{"a":{}}}'' = ''{"a":{}}''
   \<and> pixtral_parseResponse JSON_parse ''{"a":{}}}'' = Inr (JObject [(''a'', JObject [])])
   \<and> mistral_parseResponse JSON_parse ''{"a":{}}}''
       = Inl (Error ''Invalid JSON response: Unexpected token in JSON'')\<close>
  by code_simp

lemma line_scan_examples:
  \<open>pixtral_strategy1 (''} {"a": 1'' @ [CHR 0x0A] @ '' {"b": 2}  '' @ [CHR 0x0A] @ ''{}'') = []
   \<and> pixtral_strategy2 (''} {"a": 1'' @ [CHR 0x0A] @ '' {"b": 2}  '' @ [CHR 0x0A] @ ''{}'')
       = ''{"a": 1'' @ [CHR 0x0A] @ '' {"b": 2}''
   \<and> pixtral_strategy3 (''} {"a": 1'' @ [CHR 0x0A] @ '' {"b": 2}  '' @ [CHR 0x0A] @ ''{}'')
       = ''{"b": 2}''
   \<and> splitLines (''} {"a": 1'' @ [CHR 0x0A] @ '' {"b": 2}  '' @ [CHR 0x0A] @ ''{}'')
       = [''} {"a": 1'', '' {"b": 2}  '', ''{}'']
   \<and> trim '' {"b": 2}  '' = ''{"b": 2}''\<close>
  by code_simp

text \<open>
  C5, as stated, fails twice. The Mistral provider raises \<open>Invalid JSON response\<close> on the
  text \<open>{x}\<close> although strategy 1 finds the candidate \<open>{x}\<close>: \<open>JSON.parse\<close> rejects it.
  The Pixtral provider does not start with the bounds from the first opening to the last
  closing brace: on \<open>{}}\<close> those bounds hold \<open>{}}\<close>, and the provider chooses \<open>{}\<close>;
  on \<open>{"a":{}}}\<close> they hold the whole text, which \<open>JSON.parse\<close> rejects, and the
  provider chooses \<open>{"a":{}}\<close> and returns the object.
\<close>

theorem json_recovery_counterexample:
  \<open>\<not> (isl (mistral_parseResponse JSON_parse ''{x}'') \<longrightarrow>
        mistral_strategy1 ''{x}'' = [] \<and> mistral_strategy2 ''{x}'' = []
        \<and> mistral_strategy3 ''{x}'' = [])
   \<and> pixtral_jsonString ''{}}'' = ''{}''
   \<and> substring ''{}}'' (indexOf ''{}}'' CHR ''{'') (lastIndexOf ''{}}'' CHR ''}'' + 1) = ''{}}''
   \<and> pixtral_jsonString ''{"a":{}}}'' = ''{"a":{}}''
   \<and> substring ''{"a":{}}}'' (indexOf ''{"a":{}}}'' CHR ''{'')
         (lastIndexOf ''{"a":{}}}'' CHR ''}'' + 1) = ''{"a":{}}}''
   \<and> pixtral_parseResponse JSON_parse ''{"a":{}}}'' = Inr (JObject [(''a'', JObject [])])
   \<and> isl (JSON_parse ''{"a":{}}}'')\<close>
  by code_simp

text \<open>
  C5, amended. The recovery runs on every response text. Each provider takes the first
  non-empty candidate of its three strategies, raises \<open>Invalid JSON response: No valid
  JSON object found in response\<close> when all three find nothing, and otherwise hands the
  chosen candidate to \<open>JSON.parse\<close> and raises \<open>Invalid JSON response: ...\<close> exactly when
  \<open>JSON.parse\<close> rejects it. What a strategy finds in a text \<open>t\<close> is a non-empty
  candidate \<open>c\<close> in these cases and no others.

  \<^item> Mistral, strategy 1: \<open>c\<close> runs from the first opening brace of \<open>t\<close> to its last
    closing brace, which comes later.
  \<^item> Mistral, strategy 2: \<open>c\<close> is a balanced block of \<open>t\<close>; the text before it has brace
    depth zero, and no opening brace in it stands at depth zero.
  \<^item> Mistral, strategy 3, the pattern \<open>\{[\s\S]*\}\<close>: the candidate of strategy 1.
  \<^item> Pixtral, strategy 1: \<open>c\<close> is the balanced block that starts at the first opening
    brace of \<open>t\<close>.
  \<^item> Pixtral, strategy 2, the pattern \<open>\{[^}]*\}\<close>: \<open>c\<close> runs from the first opening
    brace of \<open>t\<close> to the first closing brace after it.
  \<^item> Pixtral, strategy 3: \<open>c\<close> is the first line of \<open>t\<close> that, trimmed, starts with an
    opening brace and contains a closing one, trimmed. The lines of \<open>t\<close> are the pieces
    between its line feeds, and trimming a line removes the white space at its two ends.
\<close>

theorem json_recovery_order_and_errors:
  "mistral_jsonString t =
     firstCandidate [mistral_strategy1 t, mistral_strategy2 t, mistral_strategy3 t]
   \<and> pixtral_jsonString t =
     firstCandidate [pixtral_strategy1 t, pixtral_strategy2 t, pixtral_strategy3 t]
   \<and> mistral_parseResponse parse t =
       (if mistral_strategy1 t = [] \<and> mistral_strategy2 t = [] \<and> mistral_strategy3 t = []
        then Inl (Error ''Invalid JSON response: No valid JSON object found in response'')
        else case parse (mistral_jsonString t) of
               Inl msg \<Rightarrow> Inl (Error (''Invalid JSON response: '' @ msg))
             | Inr json \<Rightarrow> Inr json)
   \<and> pixtral_parseResponse parse t =
       (if pixtral_strategy1 t = [] \<and> pixtral_strategy2 t = [] \<and> pixtral_strategy3 t = []
        then Inl (Error ''Invalid JSON response: No valid JSON object found in response'')
        else case parse (pixtral_jsonString t) of
               Inl msg \<Rightarrow> Inl (Error (''Invalid JSON response: '' @ msg))
             | Inr json \<Rightarrow> Inr json)
   \<and> (mistral_strategy1 t = c \<and> c \<noteq> [] \<longleftrightarrow>
        (\<exists>pre mid post. t = pre @ ''{'' @ mid @ ''}'' @ post
           \<and> CHR ''{'' \<notin> set pre \<and> CHR ''}'' \<notin> set post \<and> c = ''{'' @ mid @ ''}''))
   \<and> (mistral_strategy2 t = c \<and> c \<noteq> [] \<longleftrightarrow>
        (\<exists>pre post. t = pre @ c @ post \<and> balancedBlock c \<and> depth pre = 0
           \<and> (\<forall>k<length pre. pre ! k = CHR ''{'' \<longrightarrow> depth (take k pre) \<noteq> 0)))
   \<and> mistral_strategy3 t = mistral_strategy1 t
   \<and> (pixtral_strategy1 t = c \<and> c \<noteq> [] \<longleftrightarrow>
        (\<exists>pre post. t = pre @ c @ post \<and> CHR ''{'' \<notin> set pre \<and> balancedBlock c))
   \<and> (pixtral_strategy2 t = c \<and> c \<noteq> [] \<longleftrightarrow>
        (\<exists>pre mid post. t = pre @ ''{'' @ mid @ ''}'' @ post
           \<and> CHR ''{'' \<notin> set pre \<and> CHR ''}'' \<notin> set mid \<and> c = ''{'' @ mid @ ''}''))
   \<and> (pixtral_strategy3 t = c \<and> c \<noteq> [] \<longleftrightarrow>
        (\<exists>before line after. splitLines t = before @ line # after \<and> c = trim line
           \<and> take 1 c = ''{'' \<and> CHR ''}'' \<in> set c
           \<and> (\<forall>l \<in> set before. \<not> (take 1 (trim l) = ''{'' \<and> CHR ''}'' \<in> set (trim l)))))
   \<and> concat (map (\<lambda>l. l @ [CHR 0x0A]) (splitLines t)) = t @ [CHR 0x0A]
   \<and> (\<forall>l \<in> set (splitLines t). CHR 0x0A \<notin> set l)
   \<and> (\<exists>a b. line = a @ trim line @ b
         \<and> (\<forall>x \<in> set a. isWhiteSpace x) \<and> (\<forall>x \<in> set b. isWhiteSpace x)
         \<and> (trim line \<noteq> [] \<longrightarrow>
               \<not> isWhiteSpace (hd (trim line)) \<and> \<not> isWhiteSpace (last (trim line))))"
proof (intro conjI)
  show "mistral_jsonString t =
      firstCandidate [mistral_strategy1 t, mistral_strategy2 t, mistral_strategy3 t]"
    by (simp add: mistral_jsonString_def Let_def)
  show "pixtral_jsonString t =
      firstCandidate [pixtral_strategy1 t, pixtral_strategy2 t, pixtral_strategy3 t]"
    by (simp add: pixtral_jsonString_def Let_def)
  show "mistral_parseResponse parse t =
       (if mistral_strategy1 t = [] \<and> mistral_strategy2 t = [] \<and> mistral_strategy3 t = []
        then Inl (Error ''Invalid JSON response: No valid JSON object found in response'')
        else case parse (mistral_jsonString t) of
               Inl msg \<Rightarrow> Inl (Error (''Invalid JSON response: '' @ msg))
             | Inr json \<Rightarrow> Inr json)"
    by (simp add: mistral_jsonString_def mistral_parseResponse_def parseCandidate_def Let_def)
  show "pixtral_parseResponse parse t =
       (if pixtral_strategy1 t = [] \<and> pixtral_strategy2 t = [] \<and> pixtral_strategy3 t = []
        then Inl (Error ''Invalid JSON response: No valid JSON object found in response'')
        else case parse (pixtral_jsonString t) of
               Inl msg \<Rightarrow> Inl (Error (''Invalid JSON response: '' @ msg))
             | Inr json \<Rightarrow> Inr json)"
    by (simp add: pixtral_jsonString_def pixtral_parseResponse_def parseCandidate_def Let_def)
  show "mistral_strategy1 t = c \<and> c \<noteq> [] \<longleftrightarrow>
        (\<exists>pre mid post. t = pre @ ''{'' @ mid @ ''}'' @ post
           \<and> CHR ''{'' \<notin> set pre \<and> CHR ''}'' \<notin> set post \<and> c = ''{'' @ mid @ ''}'')"
    by (rule mistral_strategy1_iff)
  show "mistral_strategy2 t = c \<and> c \<noteq> [] \<longleftrightarrow>
        (\<exists>pre post. t = pre @ c @ post \<and> balancedBlock c \<and> depth pre = 0
           \<and> (\<forall>k<length pre. pre ! k = CHR ''{'' \<longrightarrow> depth (take k pre) \<noteq> 0))"
    by (rule mistral_strategy2_iff)
  show "mistral_strategy3 t = mistral_strategy1 t"
    by (rule mistral_strategy3_eq_strategy1)
  show "pixtral_strategy1 t = c \<and> c \<noteq> [] \<longleftrightarrow>
        (\<exists>pre post. t = pre @ c @ post \<and> CHR ''{'' \<notin> set pre \<and> balancedBlock c)"
    by (rule pixtral_strategy1_iff)
  show "pixtral_strategy2 t = c \<and> c \<noteq> [] \<longleftrightarrow>
        (\<exists>pre mid post. t = pre @ ''{'' @ mid @ ''}'' @ post
           \<and> CHR ''{'' \<notin> set pre \<and> CHR ''}'' \<notin> set mid \<and> c = ''{'' @ mid @ ''}'')"
    by (rule pixtral_strategy2_iff)
  show "pixtral_strategy3 t = c \<and> c \<noteq> [] \<longleftrightarrow>
        (\<exists>before line after. splitLines t = before @ line # after \<and> c = trim line
           \<and> take 1 c = ''{'' \<and> CHR ''}'' \<in> set c
           \<and> (\<forall>l \<in> set before. \<not> (take 1 (trim l) = ''{'' \<and> CHR ''}'' \<in> set (trim l))))"
    unfolding pixtral_strategy3_def by (rule pixtral_lineScan_iff)
  show "concat (map (\<lambda>l. l @ [CHR 0x0A]) (splitLines t)) = t @ [CHR 0x0A]"
    by (rule splitLines_joined)
  show "\<forall>l \<in> set (splitLines t). CHR 0x0A \<notin> set l"
    by (simp add: splitLines_no_line_feed)
  show "\<exists>a b. line = a @ trim line @ b
         \<and> (\<forall>x \<in> set a. isWhiteSpace x) \<and> (\<forall>x \<in> set b. isWhiteSpace x)
         \<and> (trim line \<noteq> [] \<longrightarrow>
               \<not> isWhiteSpace (hd (trim line)) \<and> \<not> isWhiteSpace (last (trim line)))"
    by (rule trim_spec)
qed

theorem json_recovery_order_and_errors_witness:
  \<open>pixtral_jsonString ''{"a":{}}}'' = ''{"a":{}}''
   \<and> pixtral_parseResponse JSON_parse ''{"a":{}}}'' = Inr (JObject [(''a'', JObject [])])
   \<and> balancedBlock ''{"a":{}}''
   \<and> mistral_jsonString ''{"a":{}}}'' = ''{"a":{}}}''
   \<and> mistral_strategy3 ''{"a":{}}}'' = ''{"a":{}}}''
   \<and> mistral_parseResponse JSON_parse ''{"a":{}}}''
       = Inl (Error ''Invalid JSON response: Unexpected token in JSON'')
   \<and> mistral_jsonString ''Result: {"total": 12} '' = ''{"total": 12}''
   \<and> mistral_parseResponse JSON_parse ''Result: {"total": 12} ''
       = Inr (JObject [(''total'', JNumber ''12'')])
   \<and> mistral_parseResponse JSON_parse ''no braces here''
       = Inl (Error ''Invalid JSON response: No valid JSON object found in response'')
   \<and> pixtral_jsonString (''} {"a": 1'' @ [CHR 0x0A] @ '' {"b": 2}  '' @ [CHR 0x0A] @ ''{}'')
       = ''{"a": 1'' @ [CHR 0x0A] @ '' {"b": 2}''
   \<and> pixtral_strategy3 (''} {"a": 1'' @ [CHR 0x0A] @ '' {"b": 2}  '' @ [CHR 0x0A] @ ''{}'')
       = ''{"b": 2}''\<close>
proof -
  let ?nested = \<open>''{"a":{}}}''\<close> and ?block = \<open>''{"a":{}}''\<close>
  let ?lines = \<open>''} {"a": 1'' @ [CHR 0x0A] @ '' {"b": 2}  '' @ [CHR 0x0A] @ ''{}''\<close>
  have \<open>pixtral_strategy1 ?nested = ?block \<and> ?block \<noteq> []\<close>
    using nested_object_examples by simp
  then have \<open>\<exists>pre post. ?nested = pre @ ?block @ post \<and> CHR ''{'' \<notin> set pre
      \<and> balancedBlock ?block\<close>
    by (rule iffD1 [OF json_recovery_order_and_errors [of ?nested JSON_parse ?block,
          THEN conjunct2, THEN conjunct2, THEN conjunct2, THEN conjunct2, THEN conjunct2,
          THEN conjunct2, THEN conjunct2, THEN conjunct1]])
  then have block: \<open>balancedBlock ?block\<close>
    by (elim exE conjE)
  have pj: \<open>pixtral_jsonString ?nested = ?block\<close>
    using json_recovery_order_and_errors [of ?nested JSON_parse, THEN conjunct2, THEN conjunct1]
      nested_object_examples
    by simp
  have pp: \<open>pixtral_parseResponse JSON_parse ?nested = Inr (JObject [(''a'', JObject [])])\<close>
    using nested_object_examples by simp
  have mj: \<open>mistral_jsonString ?nested = ?nested\<close>
    using json_recovery_order_and_errors [of ?nested JSON_parse, THEN conjunct1]
      nested_object_examples
    by simp
  have m3: \<open>mistral_strategy3 ?nested = ?nested\<close>
    using json_recovery_order_and_errors [of ?nested JSON_parse, THEN conjunct2, THEN conjunct2,
        THEN conjunct2, THEN conjunct2, THEN conjunct2, THEN conjunct2, THEN conjunct1]
      nested_object_examples
    by simp
  have mp: \<open>mistral_parseResponse JSON_parse ?nested
      = Inl (Error ''Invalid JSON response: Unexpected token in JSON'')\<close>
    using nested_object_examples by simp
  have rj: \<open>mistral_jsonString ''Result: {"total": 12} '' = ''{"total": 12}''\<close>
    using json_recovery_order_and_errors [of \<open>''Result: {"total": 12} ''\<close> JSON_parse,
        THEN conjunct1] recovery_examples
    by simp
  have nb: \<open>mistral_parseResponse JSON_parse ''no braces here''
      = Inl (Error ''Invalid JSON response: No valid JSON object found in response'')\<close>
    using json_recovery_order_and_errors [of \<open>''no braces here''\<close> JSON_parse,
        THEN conjunct2, THEN conjunct2, THEN conjunct1] recovery_examples
    by simp
  have lj: \<open>pixtral_jsonString ?lines = ''{"a": 1'' @ [CHR 0x0A] @ '' {"b": 2}''\<close>
    using json_recovery_order_and_errors [of ?lines JSON_parse, THEN conjunct2, THEN conjunct1]
      line_scan_examples
    by simp
  have l3: \<open>pixtral_strategy3 ?lines = ''{"b": 2}''\<close>
    using line_scan_examples by simp
  show ?thesis
    by (intro conjI block pj pp mj m3 mp rj nb lj l3 mistral_parse_example)
qed

section \<open>Usage records: properties\<close>



lemma pow2_pos: "0 < pow2 e"
  by (simp add: pow2_def)


lemma roundHalfEven_nonneg: "0 \<le> y \<Longrightarrow> 0 \<le> roundHalfEven y"
  by (simp add: roundHalfEven_def Let_def)


lemma roundToQuantum_nonneg:
  assumes "0 \<le> a" and "0 < q"
  shows "0 \<le> roundToQuantum a q"
proof -
  from assms have "0 \<le> a / q" by simp
  then have "0 \<le> roundHalfEven (a / q)" by (rule roundHalfEven_nonneg)
  with assms(2) show ?thesis
    by (simp add: roundToQuantum_def)
qed


lemma round64_nonNegative: "0 \<le> x \<Longrightarrow> nonNegative (round64 x)"
  using roundToQuantum_nonneg [of "\<bar>x\<bar>", OF _ pow2_pos]
  by (simp add: round64_def orOverflow_def nonNegative_def)






lemma jsMul_nonNegative: "0 \<le> a \<Longrightarrow> 0 \<le> b \<Longrightarrow> nonNegative (jsMul (Finite a) (Finite b))"
  by (simp add: round64_nonNegative)






























section \<open>The Mistral provider and images\<close>

text \<open>
  C7. Whatever their arguments, \<open>ocr\<close> and \<open>extractFromImage\<close> of the Mistral provider
  throw the unsupported-operation error at once: the retry executor is not entered (it
  makes no invocation and sleeps never), and the error is not one that the executor
  would retry.
\<close>

theorem mistral_image_methods_throw_unsupported:
  "mistral_ocr imagePath = (Inl mistral_unsupported, \<lparr>calls = 0, sleeps = []\<rparr>)
   \<and> mistral_extractFromImage imagePath schema =
       (Inl mistral_unsupported, \<lparr>calls = 0, sleeps = []\<rparr>)
   \<and> name mistral_unsupported = ''Error''
   \<and> \<not> isThrottling mistral_unsupported"
  by (simp add: mistral_ocr_def mistral_extractFromImage_def emptyLog_def
      mistral_unsupported_def Error_def isThrottling_def)

section \<open>The registry: properties\<close>

lemma assign_values: "snd ` set (assign key v reg) \<subseteq> insert v (snd ` set reg)"
proof (induction reg)
  case Nil
  show ?case by simp
next
  case (Cons kw reg)
  obtain k w where kw: "kw = (k, w)" by (cases kw)
  show ?case
  proof (cases "k = key")
    case True
    with kw show ?thesis by auto
  next
    case False
    with kw Cons show ?thesis by auto
  qed
qed

lemma listedModels_assign:
  "listedModels (assign key v reg) \<subseteq> set (models v) \<union> listedModels reg"
  using assign_values [of key v reg] by (fastforce simp: listedModels_def)

lemma gpt5_unlisted: "''gpt-5'' \<notin> listedModels MODEL_PROVIDERS"
  by (simp add: listedModels_def MODEL_PROVIDERS_def OPENAI_MODELS_def
      ANTHROPIC_MODELS_def AWS_BEDROCK_MODELS_def AWS_BEDROCK_MISTRAL_MODELS_def
      AWS_BEDROCK_PIXTRAL_MODELS_def AZURE_OPENAI_MODELS_def GOOGLE_GENERATIVE_AI_MODELS_def
      DEEPSEEK_MODELS_def OPENROUTER_MODELS_def TOGETHER_MODELS_def MARITACA_MODELS_def)

lemma registry_undefined_provider:
  "g \<in> snd ` set (assign ''openaiFt'' \<lparr>models = FINETUNED_MODELS, provider = Some LLMProvider\<rparr>
                      MODEL_PROVIDERS) \<Longrightarrow> provider g = None \<Longrightarrow> models g = [''ground-truth'']"
  using assign_values [of "''openaiFt''"
      "\<lparr>models = FINETUNED_MODELS, provider = Some LLMProvider\<rparr>" MODEL_PROVIDERS]
  by (auto simp: MODEL_PROVIDERS_def)

lemma ground_truth_listed: "''ground-truth'' \<in> listedModels MODEL_PROVIDERS"
  by (simp add: listedModels_def MODEL_PROVIDERS_def)

lemma gpt4o_listed: "''gpt-4o'' \<in> listedModels MODEL_PROVIDERS"
  by (simp add: listedModels_def MODEL_PROVIDERS_def OPENAI_MODELS_def)

lemma gpt4o_found:
  "fst (getModelProvider (\<lambda>cls model. Inr (cls, model)) MODEL_PROVIDERS ''gpt-4o'')
     = (Inr (Some (LLMProvider, ''gpt-4o'')) :: jsError + (providerClass \<times> string) option)"
  by (simp add: getModelProvider_def MODEL_PROVIDERS_def OPENAI_MODELS_def
      ANTHROPIC_MODELS_def AWS_BEDROCK_MODELS_def AWS_BEDROCK_MISTRAL_MODELS_def
      AWS_BEDROCK_PIXTRAL_MODELS_def AZURE_OPENAI_MODELS_def GOOGLE_GENERATIVE_AI_MODELS_def
      DEEPSEEK_MODELS_def)

text \<open>
  C6. For a model identifier that no group of the registry lists, \<open>getModelProvider\<close>
  throws \<open>Model '<identifier>' is not supported.\<close>; it returns neither a provider nor
  \<open>undefined\<close>. This holds in every state of the registry, the initial
  \<open>MODEL_PROVIDERS\<close> among them.
\<close>

theorem getModelProvider_unlisted_model_not_supported:
  assumes "model \<notin> listedModels registry"
  shows "fst (getModelProvider instantiate registry model) =
           Inl (Error (''Model '' @ [CHR 0x27] @ model @ [CHR 0x27] @ '' is not supported.''))
         \<and> (\<forall>r. fst (getModelProvider instantiate registry model) \<noteq> Inr r)"
proof -
  let ?reg = "assign ''openaiFt'' \<lparr>models = FINETUNED_MODELS, provider = Some LLMProvider\<rparr> registry"
  have "model \<notin> listedModels ?reg"
    using assms
      listedModels_assign [of "''openaiFt''"
        "\<lparr>models = FINETUNED_MODELS, provider = Some LLMProvider\<rparr>" registry]
    by (auto simp: FINETUNED_MODELS_def)
  then have "find (\<lambda>group. model \<in> set (models group)) (map snd ?reg) = None"
    by (auto simp: find_None_iff listedModels_def)
  then show ?thesis
    by (simp add: getModelProvider_def notSupported_def quote_def)
qed

theorem getModelProvider_unlisted_model_not_supported_witness:
  "''gpt-5'' \<notin> listedModels MODEL_PROVIDERS
   \<and> fst (getModelProvider (\<lambda>cls model. Inr (cls, model)) MODEL_PROVIDERS ''gpt-5'')
       = (Inl \<lparr>name = ''Error'', message = ''Model '' @ [CHR 0x27] @ ''gpt-5'' @ [CHR 0x27] @ '' is not supported.'',
               httpStatusCode = None\<rparr> :: jsError + (providerClass \<times> string) option)"
  using getModelProvider_unlisted_model_not_supported
    [OF gpt5_unlisted, of "\<lambda>cls model. Inr (cls, model) :: jsError + (providerClass \<times> string)"]
    gpt5_unlisted
  by (simp add: Error_def)

text \<open>
  C10. \<open>getModelProvider\<close> returns \<open>undefined\<close> for \<open>ground-truth\<close>, which the
  \<open>groundTruth\<close> group lists. For every other listed identifier it does not return
  \<open>undefined\<close>: it instantiates the provider class of the identifier's group, and gives
  the provider built or the error the constructor threw.
\<close>

theorem getModelProvider_ground_truth_is_undefined:
  "fst (getModelProvider instantiate MODEL_PROVIDERS ''ground-truth'') = Inr None
   \<and> ''ground-truth'' \<in> listedModels MODEL_PROVIDERS
   \<and> (\<forall>model \<in> listedModels MODEL_PROVIDERS. model \<noteq> ''ground-truth'' \<longrightarrow>
         fst (getModelProvider instantiate MODEL_PROVIDERS model) \<noteq> Inr None
         \<and> (\<exists>cls. fst (getModelProvider instantiate MODEL_PROVIDERS model) =
                     (case instantiate cls model of Inl e \<Rightarrow> Inl e | Inr p \<Rightarrow> Inr (Some p))))"
proof (intro conjI ballI impI)
  let ?reg = "assign ''openaiFt'' \<lparr>models = FINETUNED_MODELS, provider = Some LLMProvider\<rparr>
                MODEL_PROVIDERS"
  have reg: "?reg = MODEL_PROVIDERS
      @ [(''openaiFt'', \<lparr>models = FINETUNED_MODELS, provider = Some LLMProvider\<rparr>)]"
    by (simp add: MODEL_PROVIDERS_def)
  have found: "\<exists>g. find (\<lambda>group. m \<in> set (models group)) (map snd ?reg) = Some g
                  \<and> m \<in> set (models g) \<and> g \<in> snd ` set ?reg"
    if "m \<in> listedModels MODEL_PROVIDERS" for m
  proof -
    from that have "\<exists>g \<in> set (map snd ?reg). m \<in> set (models g)"
      unfolding reg by (auto simp: listedModels_def)
    then obtain g where "find (\<lambda>group. m \<in> set (models group)) (map snd ?reg) = Some g"
      by (cases "find (\<lambda>group. m \<in> set (models group)) (map snd ?reg)")
         (auto simp: find_None_iff)
    then show ?thesis by (auto simp: find_Some_iff)
  qed
  show "fst (getModelProvider instantiate MODEL_PROVIDERS ''ground-truth'') = Inr None"
    using found [OF ground_truth_listed] by (auto simp: getModelProvider_def)
  show "''ground-truth'' \<in> listedModels MODEL_PROVIDERS" by (rule ground_truth_listed)
  fix model
  assume listed: "model \<in> listedModels MODEL_PROVIDERS" and other: "model \<noteq> ''ground-truth''"
  from found [OF listed] obtain g
    where g: "find (\<lambda>group. model \<in> set (models group)) (map snd ?reg) = Some g"
      "model \<in> set (models g)" "g \<in> snd ` set ?reg" by blast
  have "provider g \<noteq> None"
  proof
    assume "provider g = None"
    then have "models g = [''ground-truth'']" by (rule registry_undefined_provider [OF g(3)])
    with g(2) other show False by simp
  qed
  then obtain cls where cls: "provider g = Some cls" by blast
  have run: "fst (getModelProvider instantiate MODEL_PROVIDERS model) =
      (case instantiate cls model of Inl e \<Rightarrow> Inl e | Inr p \<Rightarrow> Inr (Some p))"
    using g(1) cls other by (simp add: getModelProvider_def)
  then show "fst (getModelProvider instantiate MODEL_PROVIDERS model) \<noteq> Inr None"
    by (simp split: sum.splits)
  from run show "\<exists>cls. fst (getModelProvider instantiate MODEL_PROVIDERS model) =
      (case instantiate cls model of Inl e \<Rightarrow> Inl e | Inr p \<Rightarrow> Inr (Some p))" by blast
qed

theorem getModelProvider_ground_truth_is_undefined_witness:
  "''gpt-4o'' \<in> listedModels MODEL_PROVIDERS \<and> ''gpt-4o'' \<noteq> ''ground-truth''
   \<and> fst (getModelProvider (\<lambda>cls model. Inr (cls, model)) MODEL_PROVIDERS ''ground-truth'')
       = (Inr None :: jsError + (providerClass \<times> string) option)
   \<and> fst (getModelProvider (\<lambda>cls model. Inr (cls, model)) MODEL_PROVIDERS ''gpt-4o'')
       = (Inr (Some (LLMProvider, ''gpt-4o'')) :: jsError + (providerClass \<times> string) option)"
  using getModelProvider_ground_truth_is_undefined
    [of "\<lambda>cls model. Inr (cls, model) :: jsError + (providerClass \<times> string)"]
    gpt4o_listed gpt4o_found
  by simp

end
